theory Spec2Isabelle
  imports Main
begin

section \<open>JavaScript values used by the compiler\<close>

text \<open>
  The compiler of \<^verbatim>\<open>src/app.js\<close> (the second document of the file, lines 53 to 517) is
  a pipeline \<^verbatim>\<open>parse\<close>, \<^verbatim>\<open>analyse\<close>, \<^verbatim>\<open>generate\<close>. Strings are
  modelled as \<^typ>\<open>string\<close>, the cursor \<^verbatim>\<open>i\<close> as an \<^typ>\<open>int\<close> (it can become
  \<open>-1\<close> after \<^verbatim>\<open>indexOf\<close>), a thrown exception as a value of \<open>error\<close>.
\<close>

datatype error =
    Error string            \<comment> \<open>\<^verbatim>\<open>throw new Error(msg)\<close> of \<^verbatim>\<open>eat\<close>\<close>
  | HostSyntaxError string  \<comment> \<open>a \<^verbatim>\<open>SyntaxError\<close> thrown by acorn\<close>
  | TypeError               \<comment> \<open>a property read on \<^verbatim>\<open>undefined\<close>\<close>

text \<open>The result of running a function that may throw or may loop forever.\<close>

datatype 'a outcome = Ok 'a | Throw error | Diverge

text \<open>Sequencing: an exception or a divergence of the first step is the result.\<close>

definition bind :: "'a outcome \<Rightarrow> ('a \<Rightarrow> 'b outcome) \<Rightarrow> 'b outcome" where
  "bind m f = (case m of Ok x \<Rightarrow> f x | Throw e \<Rightarrow> Throw e | Diverge \<Rightarrow> Diverge)"

lemma bind_simps [simp]:
  "bind (Ok x) f = f x" "bind (Throw e) f = Throw e" "bind Diverge f = Diverge"
  by (simp_all add: bind_def)

lemma bind_cong [fundef_cong]:
  "m = m' \<Longrightarrow> (\<And>x. m' = Ok x \<Longrightarrow> f x = f' x) \<Longrightarrow> bind m f = bind m' f'"
  by (cases m') (simp_all add: bind_def)

text \<open>A step that throws or returns, as an outcome.\<close>

definition lift :: "error + 'a \<Rightarrow> 'a outcome" where
  "lift r = (case r of Inl e \<Rightarrow> Throw e | Inr x \<Rightarrow> Ok x)"

lemma lift_simps [simp]: "lift (Inl e) = Throw e" "lift (Inr x) = Ok x"
  by (simp_all add: lift_def)

definition dq :: char where
  "dq = CHR 0x22"

definition sq :: char where
  "sq = CHR 0x27"

definition backslash :: char where
  "backslash = CHR 0x5C"

text \<open>\<^verbatim>\<open>s.slice(a, b)\<close>: negative indices count from the end, both are clamped.\<close>

definition js_slice :: "string \<Rightarrow> int \<Rightarrow> int \<Rightarrow> string" where
  "js_slice s a b =
     (let n = int (length s);
          lo = (if a < 0 then max (n + a) 0 else min a n);
          hi = (if b < 0 then max (n + b) 0 else min b n)
      in if lo < hi then take (nat (hi - lo)) (drop (nat lo) s) else [])"

primrec find_sub :: "string \<Rightarrow> string \<Rightarrow> nat option" where
  "find_sub pat [] = (if pat = [] then Some 0 else None)"
| "find_sub pat (x # xs) =
     (if take (length pat) (x # xs) = pat then Some 0
      else map_option Suc (find_sub pat xs))"

text \<open>\<^verbatim>\<open>s.indexOf(pat, pos)\<close>: the first index at or after \<open>pos\<close>, or \<open>-1\<close>.\<close>

definition indexOf :: "string \<Rightarrow> string \<Rightarrow> int \<Rightarrow> int" where
  "indexOf s pat pos =
     (let k = nat (max 0 (min pos (int (length s))))
      in case find_sub pat (drop k s) of None \<Rightarrow> - 1 | Some j \<Rightarrow> int (k + j))"

text \<open>
  The four regular expressions of the parser are single character classes:
  \<^verbatim>\<open>/[a-z]/\<close>, \<^verbatim>\<open>/[^=]/\<close>, \<^verbatim>\<open>/[\s\n]/\<close>, \<^verbatim>\<open>/[^<{]/\<close>. A character is a code
  unit below 256, and the white space class is JavaScript's \<^verbatim>\<open>\s\<close> on that range: tab,
  line feed, vertical tab, form feed, carriage return, space and no-break space. The
  same characters are those that \<^verbatim>\<open>trim\<close> removes.
\<close>

datatype regex = Lower | NotEquals | Whitespace | NotLtBrace

definition is_space :: "char \<Rightarrow> bool" where
  "is_space c = (c \<in> {CHR 0x09, CHR 0x0A, CHR 0x0B, CHR 0x0C, CHR 0x0D, CHR 0x20, CHR 0xA0})"

fun in_class :: "regex \<Rightarrow> char \<Rightarrow> bool" where
  "in_class Lower c = ((97::nat) \<le> of_char c \<and> of_char c \<le> (122::nat))"
| "in_class NotEquals c = (c \<noteq> CHR ''='')"
| "in_class Whitespace c = is_space c"
| "in_class NotLtBrace c = (c \<noteq> CHR ''<'' \<and> c \<noteq> CHR ''{'')"

text \<open>\<^verbatim>\<open>regex.test(x)\<close> converts \<open>x\<close> to a string and looks for a matching character.\<close>

definition regex_test :: "regex \<Rightarrow> string \<Rightarrow> bool" where
  "regex_test r s = list_ex (in_class r) s"

text \<open>\<^verbatim>\<open>content[i]\<close> as \<^verbatim>\<open>test\<close> sees it: out of range it is \<^verbatim>\<open>undefined\<close>.\<close>

definition char_at :: "string \<Rightarrow> int \<Rightarrow> string" where
  "char_at s i = (if 0 \<le> i \<and> i < int (length s) then [s ! nat i] else ''undefined'')"

text \<open>\<^verbatim>\<open>text.trim() !== ''\<close>\<close>

definition trim_nonempty :: "string \<Rightarrow> bool" where
  "trim_nonempty s = list_ex (\<lambda>c. \<not> is_space c) s"

section \<open>Syntax trees\<close>

text \<open>
  A scope of periscopic: its own declarations and its parent. \<^verbatim>\<open>find_owner\<close> searches
  outwards and yields \<^verbatim>\<open>null\<close> (here \<open>None\<close>) when nobody declares the name.
\<close>

datatype scope = Scope (declarations: "string list") (parent: "scope option")

fun find_owner :: "string \<Rightarrow> scope \<Rightarrow> scope option" where
  "find_owner n (Scope ds p) =
     (if n \<in> set ds then Some (Scope ds p)
      else case p of None \<Rightarrow> None | Some q \<Rightarrow> find_owner n q)"

text \<open>
  The ESTree nodes of acorn. The node types the compiler inspects have a constructor of
  their own; every other node is \<open>Other\<close> with its type tag, its children in the order
  the tree walker visits them, and, when periscopic's node-to-scope map has an entry for
  the node, the declarations of the scope that the node introduces (the scope's parent
  is the scope current when the node is entered).
\<close>

datatype jsnode =
    Identifier string
  | Literal string
  | BinaryExpression string jsnode jsnode
  | LogicalExpression string jsnode jsnode
  | UpdateExpression string bool jsnode
  | AssignmentExpression string jsnode jsnode
  | SequenceExpression "jsnode list"
  | CallExpression jsnode "jsnode list"
  | ArrayExpression "jsnode list"
  | ExpressionStatement jsnode
  | LabeledStatement string jsnode
  | Program "jsnode list"
  | Other string "string list option" "jsnode list"

text \<open>The template nodes built by \<^verbatim>\<open>parse\<close>, tagged by \<^verbatim>\<open>type\<close>.\<close>

datatype fragment =
    Element string "fragment list" "fragment list"
  | Attribute string jsnode
  | Expression jsnode
  | Text string

record ast =
  html :: "fragment list"
  script :: "jsnode option"

text \<open>
  The libraries the compiler imports are parameters: acorn (\<^verbatim>\<open>parse\<close> and
  \<^verbatim>\<open>parseExpressionAt\<close>, the latter giving the node and its \<^verbatim>\<open>end\<close>), periscopic
  (\<^verbatim>\<open>analyze\<close> giving the root scope and the globals, \<^verbatim>\<open>extract_names\<close>) and
  escodegen (\<^verbatim>\<open>generate\<close>).
\<close>

record host =
  acorn_parse :: "string \<Rightarrow> string + jsnode"
  acorn_parseExpressionAt :: "string \<Rightarrow> int \<Rightarrow> string + (jsnode \<times> int)"
  periscopic_analyze :: "jsnode \<Rightarrow> scope \<times> string list"
  periscopic_extract_names :: "jsnode \<Rightarrow> string list"
  escodegen_generate :: "jsnode \<Rightarrow> string"

section \<open>The parser\<close>

definition match :: "string \<Rightarrow> int \<Rightarrow> string \<Rightarrow> bool" where
  "match content i str = (js_slice content i (i + int (length str)) = str)"

definition expecting :: "string \<Rightarrow> string" where
  "expecting str = ''Parse error: expecting '' @ [dq] @ str @ [dq]"

definition eat :: "string \<Rightarrow> int \<Rightarrow> string \<Rightarrow> error + int" where
  "eat content i str =
     (if match content i str then Inr (i + int (length str))
      else Inl (Error (expecting str)))"

function scan :: "regex \<Rightarrow> string \<Rightarrow> int \<Rightarrow> int" where
  "scan r content i =
     (if i < int (length content) \<and> regex_test r (char_at content i)
      then scan r content (i + 1) else i)"
  by pat_completeness auto
termination
  by (relation "measure (\<lambda>(r, content, i). nat (int (length content) - i))") auto

declare scan.simps [simp del]

definition readWhileMatching :: "regex \<Rightarrow> string \<Rightarrow> int \<Rightarrow> string \<times> int" where
  "readWhileMatching r content i = (let j = scan r content i in (js_slice content i j, j))"

definition skipWhitespace :: "string \<Rightarrow> int \<Rightarrow> int" where
  "skipWhitespace content i = snd (readWhileMatching Whitespace content i)"

definition parseJavaScript :: "host \<Rightarrow> string \<Rightarrow> int \<Rightarrow> (jsnode \<times> int) outcome" where
  "parseJavaScript h content i =
     (case acorn_parseExpressionAt h content i of
        Inl m \<Rightarrow> Throw (HostSyntaxError m)
      | Inr r \<Rightarrow> Ok r)"

text \<open>The parser state: the cursor \<^verbatim>\<open>i\<close> and \<^verbatim>\<open>ast.script\<close>.\<close>

type_synonym pstate = "int \<times> jsnode option"

text \<open>\<^verbatim>\<open>parseScript\<close> has no \<^verbatim>\<open>return\<close>: it only moves the cursor and sets the script.\<close>

definition parseScript :: "host \<Rightarrow> string \<Rightarrow> pstate \<Rightarrow> pstate outcome" where
  "parseScript h content st =
     (if match content (fst st) ''<script>'' then
        bind (lift (eat content (fst st) ''<script>'')) (\<lambda>startIndex.
          let endIndex = indexOf content ''</script>'' startIndex;
              code = js_slice content startIndex endIndex
          in case acorn_parse h code of
               Inl m \<Rightarrow> Throw (HostSyntaxError m)
             | Inr prog \<Rightarrow>
                 bind (lift (eat content endIndex ''</script>'')) (\<lambda>i'. Ok (i', Some prog)))
      else Ok st)"

definition parseAttribute :: "host \<Rightarrow> string \<Rightarrow> int \<Rightarrow> (fragment \<times> int) outcome" where
  "parseAttribute h content i =
     (case readWhileMatching NotEquals content i of (name, i1) \<Rightarrow>
        bind (lift (eat content i1 ''={'')) (\<lambda>i2.
        bind (parseJavaScript h content i2) (\<lambda>(v, i3).
        bind (lift (eat content i3 ''}'')) (\<lambda>i4.
        Ok (Attribute name v, i4)))))"

text \<open>
  The loop of \<^verbatim>\<open>parseAttributeList\<close>. Loops that may run forever take fuel: one unit
  per iteration, and \<open>Diverge\<close> when it runs out.
\<close>

fun attributeLoop :: "host \<Rightarrow> string \<Rightarrow> nat \<Rightarrow> int \<Rightarrow> (fragment list \<times> int) outcome" where
  "attributeLoop h content 0 i = Diverge"
| "attributeLoop h content (Suc n) i =
     (if \<not> match content i ''>'' then
        bind (parseAttribute h content i) (\<lambda>(a, i1).
        bind (attributeLoop h content n (skipWhitespace content i1)) (\<lambda>(as, i2).
        Ok (a # as, i2)))
      else Ok ([], i))"

definition parseAttributeList :: "host \<Rightarrow> string \<Rightarrow> nat \<Rightarrow> int \<Rightarrow> (fragment list \<times> int) outcome" where
  "parseAttributeList h content n i = attributeLoop h content n (skipWhitespace content i)"

definition parseExpression :: "host \<Rightarrow> string \<Rightarrow> pstate \<Rightarrow> (fragment option \<times> pstate) outcome" where
  "parseExpression h content st =
     (if match content (fst st) ''{'' then
        bind (lift (eat content (fst st) ''{'')) (\<lambda>i1.
        bind (parseJavaScript h content i1) (\<lambda>(expression, i2).
        bind (lift (eat content i2 ''}'')) (\<lambda>i3.
        Ok (Some (Expression expression), (i3, snd st)))))
      else Ok (None, st))"

definition parseText :: "string \<Rightarrow> pstate \<Rightarrow> fragment option \<times> pstate" where
  "parseText content st =
     (case readWhileMatching NotLtBrace content (fst st) of (text, i1) \<Rightarrow>
        (if trim_nonempty text then Some (Text text) else None, (i1, snd st)))"

text \<open>
  The loop condition of \<^verbatim>\<open>parseFragments\<close>: \<open>None\<close> is \<^verbatim>\<open>() => i < content.length\<close>
  of the top level, \<open>Some endTag\<close> is \<^verbatim>\<open>() => !match(endTag)\<close> of an element.
\<close>

definition condition :: "string \<Rightarrow> string option \<Rightarrow> int \<Rightarrow> bool" where
  "condition content c i =
     (case c of None \<Rightarrow> i < int (length content) | Some endTag \<Rightarrow> \<not> match content i endTag)"

text \<open>\<^verbatim>\<open>if (fragment) fragments.push(fragment)\<close>, the list built front to back.\<close>

definition push_fragment :: "fragment option \<Rightarrow> fragment list \<Rightarrow> fragment list" where
  "push_fragment fragment fragments = (case fragment of None \<Rightarrow> fragments | Some f \<Rightarrow> f # fragments)"

text \<open>
  \<^verbatim>\<open>parseElement\<close> up to the children: \<^verbatim>\<open>eat('<')\<close>, the tag name, the attribute list
  and \<^verbatim>\<open>eat('>')\<close>. The result is the tag name, the attributes and the cursor.
\<close>

definition openTag :: "host \<Rightarrow> string \<Rightarrow> nat \<Rightarrow> int \<Rightarrow> (string \<times> fragment list \<times> int) outcome" where
  "openTag h content n i =
     bind (lift (eat content i ''<'')) (\<lambda>i1.
     (case readWhileMatching Lower content i1 of (tagName, i2) \<Rightarrow>
        bind (parseAttributeList h content n i2) (\<lambda>(attributes, i3).
        bind (lift (eat content i3 ''>'')) (\<lambda>i4.
        Ok (tagName, attributes, i4)))))"

definition endTag :: "string \<Rightarrow> string" where
  "endTag tagName = ''</'' @ tagName @ ''>''"

text \<open>The rest of \<^verbatim>\<open>parseFragment\<close> once \<^verbatim>\<open>parseElement\<close> gave nothing.\<close>

definition parseExpressionOrText :: "host \<Rightarrow> string \<Rightarrow> pstate \<Rightarrow> (fragment option \<times> pstate) outcome" where
  "parseExpressionOrText h content st =
     bind (parseExpression h content st) (\<lambda>(r, st1).
       case r of Some expression \<Rightarrow> Ok (Some expression, st1)
       | None \<Rightarrow> Ok (parseText content st1))"

function (sequential) parseFragments :: "host \<Rightarrow> string \<Rightarrow> nat \<Rightarrow> string option \<Rightarrow> pstate \<Rightarrow> (fragment list \<times> pstate) outcome"
  and parseFragment :: "host \<Rightarrow> string \<Rightarrow> nat \<Rightarrow> pstate \<Rightarrow> (fragment option \<times> pstate) outcome"
  and parseElement :: "host \<Rightarrow> string \<Rightarrow> nat \<Rightarrow> pstate \<Rightarrow> (fragment option \<times> pstate) outcome"
where
  "parseFragments h content 0 c st = Diverge"
| "parseFragments h content (Suc n) c st =
     (if condition content c (fst st) then
        bind (parseFragment h content n st) (\<lambda>r.
        bind (parseFragments h content n c (snd r)) (\<lambda>rs.
        Ok (push_fragment (fst r) (fst rs), snd rs)))
      else Ok ([], st))"
| "parseFragment h content n st =
     bind (parseScript h content st) (\<lambda>st1.
     bind (parseElement h content n st1) (\<lambda>r.
       case fst r of Some element \<Rightarrow> Ok (Some element, snd r)
       | None \<Rightarrow> parseExpressionOrText h content (snd r)))"
| "parseElement h content n st =
     (if match content (fst st) ''<'' then
        bind (openTag h content n (fst st)) (\<lambda>t.
        bind (parseFragments h content n (Some (endTag (fst t))) (snd (snd t), snd st)) (\<lambda>cs.
        bind (lift (eat content (fst (snd cs)) (endTag (fst t)))) (\<lambda>i6.
        Ok (Some (Element (fst t) (fst (snd t)) (fst cs)), (i6, snd (snd cs))))))
      else Ok (None, st))"
  by pat_completeness auto
termination
  by (relation "measure (\<lambda>x. case x of Inl (h, c, n, cd, st) \<Rightarrow> 3 * n
         | Inr (Inl (h, c, n, st)) \<Rightarrow> 3 * n + 2 | Inr (Inr (h, c, n, st)) \<Rightarrow> 3 * n + 1)") auto

definition parse :: "host \<Rightarrow> string \<Rightarrow> nat \<Rightarrow> ast outcome" where
  "parse h content n =
     bind (parseFragments h content n None (0, None)) (\<lambda>r.
     Ok \<lparr>html = fst r, script = snd (snd r)\<rparr>)"

section \<open>The analysis\<close>

text \<open>
  A JavaScript \<^verbatim>\<open>Set\<close> keeps its elements in insertion order, and \<^verbatim>\<open>Array.from\<close>
  lists them in that order: a set is a list without repetition, \<^verbatim>\<open>add\<close> appends a new
  element. A name read with \<^verbatim>\<open>.name\<close> is a string or \<^verbatim>\<open>undefined\<close> (\<open>None\<close>).
\<close>

definition set_add :: "'a \<Rightarrow> 'a list \<Rightarrow> 'a list" where
  "set_add x xs = (if x \<in> set xs then xs else xs @ [x])"

fun node_name :: "jsnode \<Rightarrow> string option" where
  "node_name (Identifier n) = Some n"
| "node_name _ = None"

text \<open>The children of a node, in the order the tree walker visits them.\<close>

fun children :: "jsnode \<Rightarrow> jsnode list" where
  "children (Identifier n) = []"
| "children (Literal v) = []"
| "children (BinaryExpression op l r) = [l, r]"
| "children (LogicalExpression op l r) = [l, r]"
| "children (UpdateExpression op prefix a) = [a]"
| "children (AssignmentExpression op l r) = [l, r]"
| "children (SequenceExpression es) = es"
| "children (CallExpression f as) = f # as"
| "children (ArrayExpression es) = es"
| "children (ExpressionStatement e) = [e]"
| "children (LabeledStatement l b) = [b]"
| "children (Program b) = b"
| "children (Other t sc ks) = ks"

lemma size_member: "x \<in> set xs \<Longrightarrow> size x \<le> size_list size xs"
  by (simp add: size_list_estimation')

lemma size_children: "k \<in> set (children n) \<Longrightarrow> size k < size n"
  by (cases n) (auto simp: less_Suc_eq_le dest: size_member)

text \<open>
  \<^verbatim>\<open>estreewalker.walk(right, {enter(node) {if (node.type === 'Identifier') ...}})\<close>:
  the names of all identifier nodes below a node, in the order of the walk.
\<close>

function identifiers :: "jsnode \<Rightarrow> string list" where
  "identifiers n =
     (case n of Identifier x \<Rightarrow> [x] | _ \<Rightarrow> []) @ concat (map identifiers (children n))"
  by pat_completeness auto
termination
  by (relation "measure size") (auto simp: size_children)

declare identifiers.simps [simp del]

text \<open>The function \<^verbatim>\<open>extract_names\<close> of the compiler (not periscopic's).\<close>

fun extract_names :: "jsnode \<Rightarrow> string list" where
  "extract_names (Identifier n) = [n]"
| "extract_names (BinaryExpression op l r) = extract_names l @ extract_names r"
| "extract_names _ = []"

record reactiveDeclaration =
  assignees :: "string option list"
  dependencies :: "string list"
  node :: jsnode
  index :: nat

record analysis =
  variables :: "string list"
  willChange :: "string option list"
  willUseInTemplate :: "string option list"
  rootScope :: scope
  reactiveDeclarations :: "reactiveDeclaration list"

text \<open>\<^verbatim>\<open>x.left\<close> and \<^verbatim>\<open>x.right\<close>: \<open>None\<close> is \<^verbatim>\<open>undefined\<close>.\<close>

fun left :: "jsnode \<Rightarrow> jsnode option" where
  "left (AssignmentExpression op l r) = Some l"
| "left (BinaryExpression op l r) = Some l"
| "left (LogicalExpression op l r) = Some l"
| "left _ = None"

fun right :: "jsnode \<Rightarrow> jsnode option" where
  "right (AssignmentExpression op l r) = Some r"
| "right (BinaryExpression op l r) = Some r"
| "right (LogicalExpression op l r) = Some r"
| "right _ = None"

fun is_reactive :: "jsnode \<Rightarrow> bool" where
  "is_reactive (LabeledStatement l b) = (l = ''$'')"
| "is_reactive _ = False"

text \<open>
  One step of \<^verbatim>\<open>ast.script.body.forEach((node, index) => ...)\<close>. Reading
  \<^verbatim>\<open>body.expression.left\<close> throws when \<^verbatim>\<open>body.expression\<close> is undefined, and
  \<^verbatim>\<open>left.name\<close> throws when \<^verbatim>\<open>left\<close> is.
\<close>

fun reactive_of :: "nat \<Rightarrow> jsnode \<Rightarrow> error + reactiveDeclaration option" where
  "reactive_of i (LabeledStatement l b) =
     (if l = ''$'' then
        (case b of
           ExpressionStatement e \<Rightarrow>
             (case left e of
                None \<Rightarrow> Inl TypeError
              | Some lhs \<Rightarrow>
                  Inr (Some \<lparr>assignees = [node_name lhs],
                    dependencies = (case right e of None \<Rightarrow> [] | Some rhs \<Rightarrow> identifiers rhs),
                    node = b, index = i\<rparr>))
         | _ \<Rightarrow> Inl TypeError)
      else Inr None)"
| "reactive_of i _ = Inr None"

fun collect_reactive :: "nat \<Rightarrow> jsnode list \<Rightarrow> error + reactiveDeclaration list" where
  "collect_reactive i [] = Inr []"
| "collect_reactive i (n # ns) =
     (case reactive_of i n of
        Inl e \<Rightarrow> Inl e
      | Inr r \<Rightarrow>
          (case collect_reactive (Suc i) ns of
             Inl e \<Rightarrow> Inl e
           | Inr rs \<Rightarrow> Inr ((case r of None \<Rightarrow> [] | Some rd \<Rightarrow> [rd]) @ rs)))"

text \<open>
  The scope tracking of both walks over the script:
  \<^verbatim>\<open>if (map.has(node)) currentScope = map.get(node)\<close> on entering and
  \<^verbatim>\<open>if (map.has(node)) currentScope = currentScope.parent\<close> on leaving. The scope of a
  node is the one periscopic created below the scope that was current at the node.
\<close>

fun node_scope :: "jsnode \<Rightarrow> string list option" where
  "node_scope (Other t sc ks) = sc"
| "node_scope _ = None"

definition enter_scope :: "jsnode \<Rightarrow> scope \<Rightarrow> scope" where
  "enter_scope n cur = (case node_scope n of None \<Rightarrow> cur | Some ds \<Rightarrow> Scope ds (Some cur))"

definition leave_scope :: "jsnode \<Rightarrow> scope \<Rightarrow> scope" where
  "leave_scope n cur =
     (case node_scope n of
        None \<Rightarrow> cur
      | Some ds \<Rightarrow> (case parent cur of None \<Rightarrow> cur | Some p \<Rightarrow> p))"

text \<open>\<^verbatim>\<open>node.type === 'UpdateExpression' ? node.argument : node.left\<close> of a mutation.\<close>

fun target :: "jsnode \<Rightarrow> jsnode option" where
  "target (UpdateExpression op prefix a) = Some a"
| "target (AssignmentExpression op l r) = Some l"
| "target _ = None"

definition target_names :: "host \<Rightarrow> jsnode \<Rightarrow> string list" where
  "target_names h n = (case target n of None \<Rightarrow> [] | Some t \<Rightarrow> periscopic_extract_names h t)"

definition change_names :: "scope \<Rightarrow> string list \<Rightarrow> scope \<Rightarrow> string list \<Rightarrow> string option list \<Rightarrow> string option list" where
  "change_names root globals cur names wc =
     fold (\<lambda>name wc. if find_owner name cur = Some root \<or> name \<in> set globals
                      then set_add (Some name) wc else wc) names wc"

text \<open>The walk of \<^verbatim>\<open>analyse\<close> that fills \<^verbatim>\<open>willChange\<close>.\<close>

function walk_change :: "host \<Rightarrow> scope \<Rightarrow> string list \<Rightarrow> jsnode \<Rightarrow> scope \<times> string option list \<Rightarrow> scope \<times> string option list" where
  "walk_change h root globals n s =
     (let cur = enter_scope n (fst s);
          wc = change_names root globals cur (target_names h n) (snd s);
          s' = fold (walk_change h root globals) (children n) (cur, wc)
      in (leave_scope n (fst s'), snd s'))"
  by pat_completeness auto
termination
  by (relation "measure (\<lambda>(h, root, globals, n, s). size n)") (auto simp: size_children)

declare walk_change.simps [simp del]

text \<open>The walk over the template that fills \<^verbatim>\<open>willUseInTemplate\<close>.\<close>

function traverse_use :: "fragment \<Rightarrow> string option list \<Rightarrow> string option list" where
  "traverse_use f used =
     (case f of
        Element name as cs \<Rightarrow> fold traverse_use as (fold traverse_use cs used)
      | Attribute name v \<Rightarrow> set_add (node_name v) used
      | Expression e \<Rightarrow> fold (\<lambda>name. set_add (Some name)) (extract_names e) used
      | Text v \<Rightarrow> used)"
  by pat_completeness auto
termination
  by (relation "measure (\<lambda>(f, used). size f)") (auto simp: less_Suc_eq_le dest: size_member)

declare traverse_use.simps [simp del]

definition analyse :: "host \<Rightarrow> ast \<Rightarrow> error + (analysis \<times> ast)" where
  "analyse h a =
     (case script a of
        Some (Program body) \<Rightarrow>
          (case periscopic_analyze h (Program body) of (root, globals) \<Rightarrow>
             (case collect_reactive 0 body of
                Inl e \<Rightarrow> Inl e
              | Inr rds \<Rightarrow>
                  (let wc0 = fold (\<lambda>rd wc. fold set_add (assignees rd) wc) rds [];
                       script' = Program (filter (\<lambda>n. \<not> is_reactive n) body);
                       wc = snd (walk_change h root globals script' (root, wc0));
                       used = fold traverse_use (html a) []
                   in Inr (\<lparr>variables = declarations root, willChange = wc,
                             willUseInTemplate = used, rootScope = root,
                             reactiveDeclarations = rds\<rparr>,
                           a\<lparr>script := Some script'\<rparr>))))
      | _ \<Rightarrow> Inl TypeError)"

section \<open>The generator\<close>

subsection \<open>Text\<close>

text \<open>The digit \<open>d\<close>, for \<open>d\<close> below sixteen.\<close>

definition digit :: "nat \<Rightarrow> char" where
  "digit d = ''0123456789abcdef'' ! d"

function show_nat :: "nat \<Rightarrow> string" where
  "show_nat n =
     (if n < 10 then [digit n]
      else show_nat (n div 10) @ [digit (n mod 10)])"
  by pat_completeness auto
termination
  by (relation "measure id") auto

declare show_nat.simps [simp del]

lemma show_nat_small [simp]:
  "show_nat 0 = ''0''" "show_nat (Suc 0) = ''1''" "show_nat 2 = ''2''" "show_nat 3 = ''3''"
  "show_nat 4 = ''4''" "show_nat 5 = ''5''" "show_nat 6 = ''6''" "show_nat 7 = ''7''"
  by (simp_all add: show_nat.simps digit_def)

lemma show_nat_Suc [simp]:
  "show_nat (Suc (Suc 0)) = ''2''"
  "show_nat (Suc (Suc (Suc 0))) = ''3''"
  "show_nat (Suc (Suc (Suc (Suc 0)))) = ''4''"
  "show_nat (Suc (Suc (Suc (Suc (Suc 0))))) = ''5''"
  "show_nat (Suc (Suc (Suc (Suc (Suc (Suc 0)))))) = ''6''"
  "show_nat (Suc (Suc (Suc (Suc (Suc (Suc (Suc 0))))))) = ''7''"
  by (simp_all add: show_nat.simps digit_def)

text \<open>A value spliced into a template literal: \<^verbatim>\<open>undefined\<close> prints as its name.\<close>

definition spliced :: "string option \<Rightarrow> string" where
  "spliced v = (case v of None \<Rightarrow> ''undefined'' | Some s \<Rightarrow> s)"

text \<open>\<^verbatim>\<open>JSON.stringify\<close> of an array of names; \<^verbatim>\<open>undefined\<close> becomes \<^verbatim>\<open>null\<close>.\<close>

definition json_char :: "char \<Rightarrow> string" where
  "json_char c =
     (if c = dq then [backslash, dq]
      else if c = backslash then [backslash, backslash]
      else if c = CHR 0x08 then [backslash, CHR ''b'']
      else if c = CHR 0x09 then [backslash, CHR ''t'']
      else if c = CHR 0x0A then [backslash, CHR ''n'']
      else if c = CHR 0x0C then [backslash, CHR ''f'']
      else if c = CHR 0x0D then [backslash, CHR ''r'']
      else if (of_char c :: nat) < 32 then
        [backslash, CHR ''u'', CHR ''0'', CHR ''0'',
         digit (of_char c div 16), digit (of_char c mod 16)]
      else [c])"

definition json_string :: "string \<Rightarrow> string" where
  "json_string s = [dq] @ concat (map json_char s) @ [dq]"

definition json_element :: "string option \<Rightarrow> string" where
  "json_element v = (case v of None \<Rightarrow> ''null'' | Some s \<Rightarrow> json_string s)"

fun join :: "string \<Rightarrow> string list \<Rightarrow> string" where
  "join sep [] = []"
| "join sep [x] = x"
| "join sep (x # y # ys) = x @ sep @ join sep (y # ys)"

definition json_array :: "string option list \<Rightarrow> string" where
  "json_array xs = ''['' @ join '','' (map json_element xs) @ '']''"

subsection \<open>Instructions\<close>

text \<open>
  The generator pushes lines of JavaScript onto \<^verbatim>\<open>code.create\<close>, \<^verbatim>\<open>code.update\<close> and
  \<^verbatim>\<open>code.destroy\<close>. An instruction is the line with its holes named; \<open>render\<close> is the
  line itself. The three \<open>Append\<close> instructions are the \<^verbatim>\<open>appendChild\<close> lines pushed
  for an element, a text and an expression.
\<close>

datatype guard =
    Includes string              \<comment> \<open>\<^verbatim>\<open>changed.includes('x')\<close>\<close>
  | SomeIncluded "string list"   \<comment> \<open>\<^verbatim>\<open>["x","y"].some(name => changed.includes(name))\<close>\<close>

datatype instruction =
    CreateElement string string
  | CreateText string string
  | CreateExpressionText string string
  | AppendElement string string
  | AppendText string string
  | AppendExpression string string
  | AddEventListener string string "string option"
  | RemoveEventListener string string "string option"
  | RemoveChild string string
  | Patch guard string string

fun render_guard :: "guard \<Rightarrow> string" where
  "render_guard (Includes x) = ''changed.includes('' @ [sq] @ x @ [sq] @ '')''"
| "render_guard (SomeIncluded xs) =
     json_array (map Some xs) @ ''.some(name => changed.includes(name))''"

fun render :: "instruction \<Rightarrow> string" where
  "render (CreateElement v tag) =
     v @ '' = document.createElement('' @ [sq] @ tag @ [sq] @ '');''"
| "render (CreateText v txt) =
     v @ '' = document.createTextNode('' @ [sq] @ txt @ [sq] @ '')''"
| "render (CreateExpressionText v e) = v @ '' = document.createTextNode('' @ e @ '')''"
| "render (AppendElement p v) = p @ ''.appendChild('' @ v @ '')''"
| "render (AppendText p v) = p @ ''.appendChild('' @ v @ '')''"
| "render (AppendExpression p v) = p @ ''.appendChild('' @ v @ '');''"
| "render (AddEventListener p ev f) =
     p @ ''.addEventListener('' @ [sq] @ ev @ [sq] @ '', '' @ spliced f @ '');''"
| "render (RemoveEventListener p ev f) =
     p @ ''.removeEventListener('' @ [sq] @ ev @ [sq] @ '', '' @ spliced f @ '');''"
| "render (RemoveChild p v) = p @ ''.removeChild('' @ v @ '')''"
| "render (Patch g v e) =
     ''if ('' @ render_guard g @ '') {'' @ [CHR 0x0A] @
     ''            '' @ v @ ''.data = '' @ e @ '';'' @ [CHR 0x0A] @
     ''          }''"

record code =
  code_variables :: "string option list"
  code_create :: "instruction list"
  code_update :: "instruction list"
  code_destroy :: "instruction list"

text \<open>The guard of an expression whose names are \<open>names\<close>, when one of them will change.\<close>

definition changes_of :: "string option list \<Rightarrow> string list \<Rightarrow> string list" where
  "changes_of wc names = fold (\<lambda>name cs. if Some name \<in> set wc then set_add name cs else cs) names []"

definition condition_of :: "string list \<Rightarrow> guard" where
  "condition_of changes =
     (if length changes > 1 then SomeIncluded changes
      else Includes (spliced (case changes of [] \<Rightarrow> None | c # cs \<Rightarrow> Some c)))"

text \<open>
  \<^verbatim>\<open>traverse(node, parent)\<close> of \<^verbatim>\<open>generate\<close>. The state is \<^verbatim>\<open>code\<close> and
  \<^verbatim>\<open>counter\<close>.
\<close>

function traverse :: "host \<Rightarrow> string option list \<Rightarrow> string \<Rightarrow> fragment \<Rightarrow> code \<times> nat \<Rightarrow> code \<times> nat" where
  "traverse h wc p f s =
     (case f of
        Element name as cs \<Rightarrow>
          (let variableName = name @ ''_'' @ show_nat (snd s);
               c1 = (fst s)\<lparr>code_variables := code_variables (fst s) @ [Some variableName],
                           code_create := code_create (fst s) @ [CreateElement variableName name]\<rparr>;
               s2 = fold (traverse h wc variableName) as (c1, Suc (snd s));
               s3 = fold (traverse h wc variableName) cs s2
           in ((fst s3)\<lparr>code_create := code_create (fst s3) @ [AppendElement p variableName],
                         code_destroy := code_destroy (fst s3) @ [RemoveChild p variableName]\<rparr>,
               snd s3))
      | Text v \<Rightarrow>
          (let variableName = ''txt_'' @ show_nat (snd s)
           in ((fst s)\<lparr>code_variables := code_variables (fst s) @ [Some variableName],
                        code_create := code_create (fst s) @
                          [CreateText variableName v, AppendText p variableName]\<rparr>,
               Suc (snd s)))
      | Attribute name v \<Rightarrow>
          (if take 3 name = ''on:'' then
             (let eventName = drop 3 name;
                  eventHandler = node_name v
              in ((fst s)\<lparr>code_create := code_create (fst s) @
                             [AddEventListener p eventName eventHandler],
                           code_destroy := code_destroy (fst s) @
                             [RemoveEventListener p eventName eventHandler]\<rparr>,
                  snd s))
           else s)
      | Expression e \<Rightarrow>
          (let variableName = ''txt_'' @ show_nat (snd s);
               expressionStr = escodegen_generate h e;
               c1 = (fst s)\<lparr>code_variables := code_variables (fst s) @ [Some variableName],
                           code_create := code_create (fst s) @
                             [CreateExpressionText variableName expressionStr,
                              AppendExpression p variableName]\<rparr>;
               names = extract_names e
           in (if list_ex (\<lambda>name. Some name \<in> set wc) names then
                 c1\<lparr>code_update := code_update c1 @
                      [Patch (condition_of (changes_of wc names)) variableName expressionStr]\<rparr>
               else c1,
               Suc (snd s))))"
  by pat_completeness auto
termination
  by (relation "measure (\<lambda>(h, wc, p, f, s). size f)") (auto simp: less_Suc_eq_le dest: size_member)

declare traverse.simps [simp del]

subsection \<open>The rewrite of the script\<close>

text \<open>
  The node that \<^verbatim>\<open>acorn.parseExpressionAt\<close> builds from the text
  \<^verbatim>\<open>update(["a","b"])\<close>: a call of \<^verbatim>\<open>update\<close> with one array of string literals.
\<close>

definition update_call :: "string list \<Rightarrow> jsnode" where
  "update_call names =
     CallExpression (Identifier ''update'') [ArrayExpression (map (\<lambda>n. Literal (json_string n)) names)]"

text \<open>
  The names of a mutation that pass the filter
  \<^verbatim>\<open>currentScope.find_owner(name) === rootScope && analysis.willUseInTemplate.has(name)\<close>.
\<close>

definition notify_names :: "host \<Rightarrow> scope \<Rightarrow> string option list \<Rightarrow> scope \<Rightarrow> jsnode \<Rightarrow> string list" where
  "notify_names h root used cur n =
     filter (\<lambda>name. find_owner name cur = Some root \<and> Some name \<in> set used) (target_names h n)"

text \<open>
  The second walk over the script. A mutation with a name to notify is replaced by the
  sequence of itself and the call, and \<^verbatim>\<open>this.skip()\<close> leaves its children unvisited;
  every other node is rebuilt from its rewritten children. The result is the new node
  and the current scope after the node.
\<close>

function rewrite :: "host \<Rightarrow> scope \<Rightarrow> string option list \<Rightarrow> jsnode \<Rightarrow> scope \<Rightarrow> jsnode \<times> scope"
  and rewrite_list :: "host \<Rightarrow> scope \<Rightarrow> string option list \<Rightarrow> jsnode list \<Rightarrow> scope \<Rightarrow> jsnode list \<times> scope"
where
  "rewrite h root used (Identifier x) cur = (Identifier x, cur)"
| "rewrite h root used (Literal v) cur = (Literal v, cur)"
| "rewrite h root used (BinaryExpression op l r) cur =
     (case rewrite h root used l cur of (l', c1) \<Rightarrow>
        (case rewrite h root used r c1 of (r', c2) \<Rightarrow> (BinaryExpression op l' r', c2)))"
| "rewrite h root used (LogicalExpression op l r) cur =
     (case rewrite h root used l cur of (l', c1) \<Rightarrow>
        (case rewrite h root used r c1 of (r', c2) \<Rightarrow> (LogicalExpression op l' r', c2)))"
| "rewrite h root used (UpdateExpression op prefix a) cur =
     (let names = notify_names h root used cur (UpdateExpression op prefix a)
      in if names \<noteq> [] then
           (SequenceExpression [UpdateExpression op prefix a, update_call names], cur)
         else (case rewrite h root used a cur of (a', c1) \<Rightarrow> (UpdateExpression op prefix a', c1)))"
| "rewrite h root used (AssignmentExpression op l r) cur =
     (let names = notify_names h root used cur (AssignmentExpression op l r)
      in if names \<noteq> [] then
           (SequenceExpression [AssignmentExpression op l r, update_call names], cur)
         else (case rewrite h root used l cur of (l', c1) \<Rightarrow>
                 (case rewrite h root used r c1 of (r', c2) \<Rightarrow>
                    (AssignmentExpression op l' r', c2))))"
| "rewrite h root used (SequenceExpression es) cur =
     (case rewrite_list h root used es cur of (es', c1) \<Rightarrow> (SequenceExpression es', c1))"
| "rewrite h root used (CallExpression f as) cur =
     (case rewrite h root used f cur of (f', c1) \<Rightarrow>
        (case rewrite_list h root used as c1 of (as', c2) \<Rightarrow> (CallExpression f' as', c2)))"
| "rewrite h root used (ArrayExpression es) cur =
     (case rewrite_list h root used es cur of (es', c1) \<Rightarrow> (ArrayExpression es', c1))"
| "rewrite h root used (ExpressionStatement e) cur =
     (case rewrite h root used e cur of (e', c1) \<Rightarrow> (ExpressionStatement e', c1))"
| "rewrite h root used (LabeledStatement l b) cur =
     (case rewrite h root used b cur of (b', c1) \<Rightarrow> (LabeledStatement l b', c1))"
| "rewrite h root used (Program b) cur =
     (case rewrite_list h root used b cur of (b', c1) \<Rightarrow> (Program b', c1))"
| "rewrite h root used (Other t sc ks) cur =
     (case rewrite_list h root used ks (enter_scope (Other t sc ks) cur) of (ks', c1) \<Rightarrow>
        (Other t sc ks', leave_scope (Other t sc ks) c1))"
| "rewrite_list h root used [] cur = ([], cur)"
| "rewrite_list h root used (k # ks) cur =
     (case rewrite h root used k cur of (k', c1) \<Rightarrow>
        (case rewrite_list h root used ks c1 of (ks', c2) \<Rightarrow> (k' # ks', c2)))"
  by pat_completeness auto
termination
  by (relation "measure (\<lambda>x. case x of Inl (h, root, used, n, cur) \<Rightarrow> size n
         | Inr (h, root, used, ns, cur) \<Rightarrow> size_list size ns)") auto

subsection \<open>The derived statements\<close>

text \<open>The comparator given to \<^verbatim>\<open>analysis.reactiveDeclarations.sort\<close>.\<close>

definition depends_on :: "reactiveDeclaration \<Rightarrow> reactiveDeclaration \<Rightarrow> bool" where
  "depends_on rd2 rd1 =
     list_ex (\<lambda>assignee. case assignee of None \<Rightarrow> False | Some a \<Rightarrow> a \<in> set (dependencies rd2))
       (assignees rd1)"

definition comparator :: "reactiveDeclaration \<Rightarrow> reactiveDeclaration \<Rightarrow> int" where
  "comparator rd1 rd2 =
     (if depends_on rd2 rd1 then - 1
      else if depends_on rd1 rd2 then 1
      else int (index rd1) - int (index rd2))"

text \<open>
  \<^verbatim>\<open>Array.prototype.sort\<close> is stable. It is modelled by the stable insertion sort: on
  an array on which the comparator is a consistent ordering this is the one result
  ECMAScript allows. On other arrays ECMAScript leaves the order to the engine, and the
  result here is one of the orders an engine may give, not the order of every engine.
\<close>

fun insert_sorted :: "('a \<Rightarrow> 'a \<Rightarrow> int) \<Rightarrow> 'a \<Rightarrow> 'a list \<Rightarrow> 'a list" where
  "insert_sorted cmp x [] = [x]"
| "insert_sorted cmp x (y # ys) =
     (if cmp x y \<le> 0 then x # y # ys else y # insert_sorted cmp x ys)"

definition js_sort :: "('a \<Rightarrow> 'a \<Rightarrow> int) \<Rightarrow> 'a list \<Rightarrow> 'a list" where
  "js_sort cmp xs = foldr (insert_sorted cmp) xs []"

text \<open>One guarded block of \<^verbatim>\<open>update_reactive_declarations\<close>.\<close>

record block =
  block_dependencies :: "string list"
  block_body :: string
  block_assignees :: "string option list"

definition block_of :: "host \<Rightarrow> reactiveDeclaration \<Rightarrow> block" where
  "block_of h rd =
     \<lparr>block_dependencies = dependencies rd,
      block_body = escodegen_generate h (node rd),
      block_assignees = assignees rd\<rparr>"

definition render_block :: "block \<Rightarrow> string" where
  "render_block b =
     [CHR 0x0A] @ ''      if ('' @ json_array (map Some (block_dependencies b)) @
     ''.some(name => collectChanges.includes(name))) {'' @ [CHR 0x0A] @
     ''        '' @ block_body b @ [CHR 0x0A] @
     ''        update('' @ json_array (block_assignees b) @ '');'' @ [CHR 0x0A] @
     ''      }'' @ [CHR 0x0A] @ ''    ''"

subsection \<open>The module\<close>

text \<open>
  \<^verbatim>\<open>generate\<close> returns the text of the module: a fixed text with seven holes. The
  module is kept as the contents of the holes; \<open>module_text\<close> fills them in (the
  comment lines of the fixed text are left out).
\<close>

record module =
  declared :: "string option list"
  script_text :: string
  seed :: "string option list"
  blocks :: "block list"
  lifecycle_create :: "instruction list"
  lifecycle_update :: "instruction list"
  lifecycle_destroy :: "instruction list"

definition lines :: "string list \<Rightarrow> string" where
  "lines xs = join [CHR 0x0A] xs"

definition module_text :: "module \<Rightarrow> string" where
  "module_text m = lines
     [[],
      ''    export default function() {'',
      ''      '' @ lines (map (\<lambda>v. ''let '' @ spliced v @ '';'') (declared m)),
      ''      '',
      ''      let collectChanges = [];'',
      ''      let updateCalled = false;'',
      ''      function update(changed) {'',
      ''        changed.forEach(c => collectChanges.push(c));'',
      ''        if (updateCalled) return;'',
      ''        updateCalled = true;'',
      ''   '',
      ''        update_reactive_declarations();'',
      ''        if (typeof lifecycle !== '' @ [sq] @ ''undefined'' @ [sq] @ '') lifecycle.update(collectChanges);'',
      ''        collectChanges = [];'',
      ''        updateCalled = false;'',
      ''      }'',
      [],
      ''      '' @ script_text m,
      ''      update('' @ json_array (seed m) @ '');'',
      ''      function update_reactive_declarations() {'',
      ''        '' @ lines (map render_block (blocks m)),
      ''      }'',
      [],
      ''      var lifecycle = {'',
      ''        create(target) {'',
      ''          '' @ lines (map render (lifecycle_create m)),
      ''        },'',
      ''        update(changed) {'',
      ''          '' @ lines (map render (lifecycle_update m)),
      ''        },'',
      ''        destroy() {'',
      ''          '' @ lines (map render (lifecycle_destroy m)),
      ''        },'',
      ''      };'',
      ''      return lifecycle;'',
      ''    }'',
      ''  '']"

definition empty_code :: code where
  "empty_code = \<lparr>code_variables = [], code_create = [], code_update = [], code_destroy = []\<rparr>"

text \<open>
  \<^verbatim>\<open>generate(ast, analysis)\<close>. Without a script \<^verbatim>\<open>escodegen.generate(undefined)\<close>
  throws.
\<close>

definition generate :: "host \<Rightarrow> ast \<Rightarrow> analysis \<Rightarrow> error + module" where
  "generate h a A =
     (let c = fst (fold (traverse h (willChange A) ''target'') (html a) (empty_code, 1))
      in case script a of
           None \<Rightarrow> Inl TypeError
         | Some s \<Rightarrow>
             (let s' = fst (rewrite h (rootScope A) (willUseInTemplate A) s (rootScope A));
                  rds = js_sort comparator (reactiveDeclarations A)
              in Inr \<lparr>declared = code_variables c @ concat (map assignees rds),
                      script_text = escodegen_generate h s',
                      seed = willChange A,
                      blocks = map (block_of h) rds,
                      lifecycle_create = code_create c,
                      lifecycle_update = code_update c,
                      lifecycle_destroy = code_destroy c\<rparr>))"

text \<open>
  The pipeline at the top of the file: \<^verbatim>\<open>fs.writeFileSync\<close> is reached, and the
  module text written, only when no stage has thrown.
\<close>

definition compile :: "host \<Rightarrow> string \<Rightarrow> nat \<Rightarrow> string outcome" where
  "compile h content n =
     bind (parse h content n) (\<lambda>a.
     bind (lift (analyse h a)) (\<lambda>r.
     bind (lift (generate h (snd r) (fst r))) (\<lambda>m.
     Ok (module_text m))))"

section \<open>The generated runtime\<close>

text \<open>
  What the emitted module does when it runs. The JavaScript engine is a parameter: the
  value of an expression and the effect of a statement, both given by their source text,
  on the variables of the module.
\<close>

record 'v engine =
  evaluate :: "string \<Rightarrow> (string \<Rightarrow> 'v) \<Rightarrow> 'v"
  execute :: "string \<Rightarrow> (string \<Rightarrow> 'v) \<Rightarrow> (string \<Rightarrow> 'v)"

text \<open>
  The state of a module instance: \<^verbatim>\<open>collectChanges\<close>, \<^verbatim>\<open>updateCalled\<close>, whether
  \<^verbatim>\<open>lifecycle\<close> has been assigned (\<^verbatim>\<open>var lifecycle\<close> is hoisted and undefined until
  its assignment is reached), the variables, the \<^verbatim>\<open>data\<close> of the text nodes by binding,
  and the arguments of the calls of \<^verbatim>\<open>lifecycle.update\<close> so far.
\<close>

record 'v runtime =
  collectChanges :: "string option list"
  updateCalled :: bool
  lifecycle_defined :: bool
  vars :: "string \<Rightarrow> 'v"
  data :: "string \<Rightarrow> 'v option"
  patches :: "string option list list"

fun guard_holds :: "guard \<Rightarrow> string option list \<Rightarrow> bool" where
  "guard_holds (Includes x) changed = (Some x \<in> set changed)"
| "guard_holds (SomeIncluded xs) changed = list_ex (\<lambda>name. Some name \<in> set changed) xs"

text \<open>One line of \<^verbatim>\<open>lifecycle.update(changed)\<close>.\<close>

fun patch_step :: "'v engine \<Rightarrow> string option list \<Rightarrow> instruction \<Rightarrow> 'v runtime \<Rightarrow> 'v runtime" where
  "patch_step js changed (Patch g v e) s =
     (if guard_holds g changed then s\<lparr>data := (data s)(v := Some (evaluate js e (vars s)))\<rparr> else s)"
| "patch_step js changed _ s = s"

definition lifecycle_patch :: "'v engine \<Rightarrow> module \<Rightarrow> string option list \<Rightarrow> 'v runtime \<Rightarrow> 'v runtime" where
  "lifecycle_patch js m changed s =
     fold (patch_step js changed) (lifecycle_update m) (s\<lparr>patches := patches s @ [changed]\<rparr>)"

text \<open>
  \<^verbatim>\<open>update(changed)\<close> and \<^verbatim>\<open>update_reactive_declarations()\<close> of the module call
  each other. The fuel bounds the depth of the calls; \<open>None\<close> is running out of it.
\<close>

function update :: "nat \<Rightarrow> 'v engine \<Rightarrow> module \<Rightarrow> string option list \<Rightarrow> 'v runtime \<Rightarrow> 'v runtime option"
  and update_reactive_declarations :: "nat \<Rightarrow> 'v engine \<Rightarrow> module \<Rightarrow> block list \<Rightarrow> 'v runtime \<Rightarrow> 'v runtime option"
where
  "update 0 js m changed s = None"
| "update (Suc n) js m changed s =
     (let s1 = s\<lparr>collectChanges := collectChanges s @ changed\<rparr>
      in if updateCalled s1 then Some s1
         else (case update_reactive_declarations n js m (blocks m) (s1\<lparr>updateCalled := True\<rparr>) of
                 None \<Rightarrow> None
               | Some s2 \<Rightarrow>
                   (let s3 = (if lifecycle_defined s2
                              then lifecycle_patch js m (collectChanges s2) s2 else s2)
                    in Some (s3\<lparr>collectChanges := [], updateCalled := False\<rparr>))))"
| "update_reactive_declarations n js m [] s = Some s"
| "update_reactive_declarations n js m (b # bs) s =
     (if list_ex (\<lambda>name. Some name \<in> set (collectChanges s)) (block_dependencies b) then
        (case update n js m (block_assignees b) (s\<lparr>vars := execute js (block_body b) (vars s)\<rparr>) of
           None \<Rightarrow> None
         | Some s1 \<Rightarrow> update_reactive_declarations n js m bs s1)
      else update_reactive_declarations n js m bs s)"
  by pat_completeness auto
termination
  by (relation "inv_image (less_than <*lex*> less_than)
         (\<lambda>x. case x of Inl (n, js, m, changed, s) \<Rightarrow> (2 * n, 0)
            | Inr (n, js, m, bs, s) \<Rightarrow> (2 * n + 1, length bs))") auto





section \<open>The lifecycle object on a page\<close>

text \<open>
  What the lines of \<^verbatim>\<open>create(target)\<close> and \<^verbatim>\<open>destroy()\<close> do to the document. A node
  is the mount target or the node that \<^verbatim>\<open>create\<close> has made for a variable. The page
  has the variables that hold a node made by \<^verbatim>\<open>create\<close>, the children of each node and
  the listeners of each node, a listener being an event type and the name of its handler.
\<close>

datatype dom_node = Mount | Made string

datatype binding = Unbound | Value | Holds dom_node

datatype failure = ReferenceError string | NotANode string | NotFoundError string

record page =
  made :: "string list"
  kids :: "dom_node \<Rightarrow> dom_node list"
  listeners :: "dom_node \<Rightarrow> (string \<times> string) list"

text \<open>
  The value of an identifier in a method of the lifecycle object. The parameters of
  the method come first: \<^verbatim>\<open>create(target)\<close> has \<^verbatim>\<open>target\<close>, \<^verbatim>\<open>destroy()\<close> has none.
  Then come the variables that the module declares with \<^verbatim>\<open>let\<close>: such a variable holds
  its node once \<^verbatim>\<open>create\<close> has assigned it. Every other name is looked up outside, in
  \<open>outer\<close>: a variable of the script, a property of the global object, or nothing.
\<close>

definition resolve :: "module \<Rightarrow> (string \<Rightarrow> binding) \<Rightarrow> (string \<Rightarrow> dom_node option) \<Rightarrow> page \<Rightarrow> string \<Rightarrow> binding" where
  "resolve m outer params s x =
     (case params x of
        Some n \<Rightarrow> Holds n
      | None \<Rightarrow>
          if Some x \<in> set (declared m) then (if x \<in> set (made s) then Holds (Made x) else Value)
          else outer x)"

text \<open>
  An identifier used as a node: a name that is bound nowhere is a
  \<^verbatim>\<open>ReferenceError\<close>, and a value that is not a node has no \<^verbatim>\<open>appendChild\<close> or
  \<^verbatim>\<open>removeChild\<close>.
\<close>

definition node_of :: "module \<Rightarrow> (string \<Rightarrow> binding) \<Rightarrow> (string \<Rightarrow> dom_node option) \<Rightarrow> page \<Rightarrow> string \<Rightarrow> failure + dom_node" where
  "node_of m outer params s x =
     (case resolve m outer params s x of
        Unbound \<Rightarrow> Inl (ReferenceError x)
      | Value \<Rightarrow> Inl (NotANode x)
      | Holds n \<Rightarrow> Inr n)"

text \<open>
  \<^verbatim>\<open>v = document.createElement(...)\<close> and \<^verbatim>\<open>v = document.createTextNode(...)\<close>: the
  variable holds a new node without children or listeners. The content of a text node
  is not part of this structure; it is the \<open>data\<close> of the runtime above.
\<close>

definition assign :: "module \<Rightarrow> (string \<Rightarrow> binding) \<Rightarrow> string \<Rightarrow> page \<Rightarrow> failure + page" where
  "assign m outer v s =
     (if Some v \<in> set (declared m) then
        Inr (s\<lparr>made := v # made s, kids := (kids s)(Made v := []),
               listeners := (listeners s)(Made v := [])\<rparr>)
      else case outer v of Unbound \<Rightarrow> Inl (ReferenceError v) | _ \<Rightarrow> Inr s)"

text \<open>\<^verbatim>\<open>appendChild\<close> takes the node away from the parent it has and makes it the last child.\<close>

definition appendChild :: "dom_node \<Rightarrow> dom_node \<Rightarrow> page \<Rightarrow> page" where
  "appendChild np nv s =
     s\<lparr>kids := (\<lambda>q. if q = np then removeAll nv (kids s q) @ [nv] else removeAll nv (kids s q))\<rparr>"

definition append_line :: "module \<Rightarrow> (string \<Rightarrow> binding) \<Rightarrow> (string \<Rightarrow> dom_node option) \<Rightarrow> string \<Rightarrow> string \<Rightarrow> page \<Rightarrow> failure + page" where
  "append_line m outer params p v s =
     (case node_of m outer params s p of
        Inl e \<Rightarrow> Inl e
      | Inr np \<Rightarrow>
          (case node_of m outer params s v of
             Inl e \<Rightarrow> Inl e
           | Inr nv \<Rightarrow> Inr (appendChild np nv s)))"

text \<open>
  \<^verbatim>\<open>p.addEventListener('ev', f)\<close> and \<^verbatim>\<open>p.removeEventListener('ev', f)\<close>: the
  handler printed as \<^verbatim>\<open>undefined\<close> is no listener.
\<close>

definition listener_line :: "bool \<Rightarrow> module \<Rightarrow> (string \<Rightarrow> binding) \<Rightarrow> (string \<Rightarrow> dom_node option) \<Rightarrow> string \<Rightarrow> string \<Rightarrow> string option \<Rightarrow> page \<Rightarrow> failure + page" where
  "listener_line add m outer params p ev f s =
     (case node_of m outer params s p of
        Inl e \<Rightarrow> Inl e
      | Inr np \<Rightarrow>
          (case f of
             None \<Rightarrow> Inr s
           | Some x \<Rightarrow>
               (case resolve m outer params s x of
                  Unbound \<Rightarrow> Inl (ReferenceError x)
                | _ \<Rightarrow>
                    Inr (s\<lparr>listeners := (listeners s)(np :=
                          (if add then List.insert (ev, x) (listeners s np)
                           else removeAll (ev, x) (listeners s np)))\<rparr>))))"

text \<open>One line, and the lines of a method in their order, up to the first that throws.\<close>

fun exec :: "module \<Rightarrow> (string \<Rightarrow> binding) \<Rightarrow> (string \<Rightarrow> dom_node option) \<Rightarrow> instruction \<Rightarrow> page \<Rightarrow> failure + page" where
  "exec m outer params (CreateElement v tag) s = assign m outer v s"
| "exec m outer params (CreateText v txt) s = assign m outer v s"
| "exec m outer params (CreateExpressionText v e) s = assign m outer v s"
| "exec m outer params (AppendElement p v) s = append_line m outer params p v s"
| "exec m outer params (AppendText p v) s = append_line m outer params p v s"
| "exec m outer params (AppendExpression p v) s = append_line m outer params p v s"
| "exec m outer params (AddEventListener p ev f) s = listener_line True m outer params p ev f s"
| "exec m outer params (RemoveEventListener p ev f) s = listener_line False m outer params p ev f s"
| "exec m outer params (RemoveChild p v) s =
     (case node_of m outer params s p of
        Inl e \<Rightarrow> Inl e
      | Inr np \<Rightarrow>
          (case node_of m outer params s v of
             Inl e \<Rightarrow> Inl e
           | Inr nv \<Rightarrow>
               if nv \<in> set (kids s np) then Inr (s\<lparr>kids := (kids s)(np := removeAll nv (kids s np))\<rparr>)
               else Inl (NotFoundError v)))"
| "exec m outer params (Patch g v e) s = Inr s"

fun run :: "module \<Rightarrow> (string \<Rightarrow> binding) \<Rightarrow> (string \<Rightarrow> dom_node option) \<Rightarrow> instruction list \<Rightarrow> page \<Rightarrow> failure option \<times> page" where
  "run m outer params [] s = (None, s)"
| "run m outer params (i # is) s =
     (case exec m outer params i s of
        Inl e \<Rightarrow> (Some e, s)
      | Inr s' \<Rightarrow> run m outer params is s')"

definition create_page :: "module \<Rightarrow> (string \<Rightarrow> binding) \<Rightarrow> page \<Rightarrow> failure option \<times> page" where
  "create_page m outer s = run m outer [''target'' \<mapsto> Mount] (lifecycle_create m) s"

definition destroy_page :: "module \<Rightarrow> (string \<Rightarrow> binding) \<Rightarrow> page \<Rightarrow> failure option \<times> page" where
  "destroy_page m outer s = run m outer Map.empty (lifecycle_destroy m) s"

definition empty_page :: page where
  "empty_page = \<lparr>made = [], kids = (\<lambda>n. []), listeners = (\<lambda>n. [])\<rparr>"

section \<open>String literals of the emitted text\<close>

text \<open>
  What a JavaScript engine reads after the opening quote of a single-quoted string
  literal: the characters up to the closing quote are the value. A line terminator or
  the end of the text before the closing quote is a syntax error (\<open>Broken\<close>); after a
  backslash comes an escape sequence, whose value is not modelled (\<open>Escape\<close>).
\<close>

datatype scanned = Closed string string | Escape | Broken

fun read_literal :: "string \<Rightarrow> scanned" where
  "read_literal [] = Broken"
| "read_literal (c # cs) =
     (if c = sq then Closed [] cs
      else if c = backslash then Escape
      else if c = CHR 0x0A \<or> c = CHR 0x0D then Broken
      else (case read_literal cs of Closed v rest \<Rightarrow> Closed (c # v) rest | r \<Rightarrow> r))"

text \<open>
  The argument of \<^verbatim>\<open>document.createTextNode\<close> in the line of a \<open>CreateText\<close>
  instruction, read from the rendered line after the opening quote.
\<close>

definition text_argument :: "string \<Rightarrow> string \<Rightarrow> scanned" where
  "text_argument v txt =
     read_literal (drop (length (v @ '' = document.createTextNode('' @ [sq])) (render (CreateText v txt)))"

section \<open>A host for the examples\<close>

text \<open>
  A stand-in for the libraries, used where a theorem is run on an input. Its
  \<^verbatim>\<open>parseExpressionAt\<close> answers only where acorn's answer is plain: a run of lower
  case letters followed by \<^verbatim>\<open>}\<close> or by the end of the input is an identifier that
  ends where the run ends; everything else is refused. It gives the program \<open>prog\<close>
  for any script, periscopic gives the scope \<open>root\<close> and the globals
  \<open>globals\<close>, and escodegen prints identifiers, literals and operators.
\<close>

fun sample_print :: "jsnode \<Rightarrow> string" where
  "sample_print (Identifier x) = x"
| "sample_print (Literal v) = v"
| "sample_print (BinaryExpression op l r) = sample_print l @ '' '' @ op @ '' '' @ sample_print r"
| "sample_print (LogicalExpression op l r) = sample_print l @ '' '' @ op @ '' '' @ sample_print r"
| "sample_print (UpdateExpression op prefix a) =
     (if prefix then op @ sample_print a else sample_print a @ op)"
| "sample_print (AssignmentExpression op l r) = sample_print l @ '' '' @ op @ '' '' @ sample_print r"
| "sample_print (ExpressionStatement e) = sample_print e @ '';''"
| "sample_print _ = []"

definition sample_host :: "jsnode \<Rightarrow> scope \<Rightarrow> string list \<Rightarrow> host" where
  "sample_host prog root globals =
     \<lparr>acorn_parse = (\<lambda>code. Inr prog),
      acorn_parseExpressionAt = (\<lambda>s i.
        (let j = scan Lower s i
         in if j = i \<or> (j < int (length s) \<and> char_at s j \<noteq> ''}'') then Inl ''Unexpected token''
            else Inr (Identifier (js_slice s i j), j))),
      periscopic_analyze = (\<lambda>n. (root, globals)),
      periscopic_extract_names = (\<lambda>n. case n of Identifier x \<Rightarrow> [x] | _ \<Rightarrow> []),
      escodegen_generate = sample_print\<rparr>"

section \<open>Notions used to state the properties\<close>

text \<open>
  The line of \<^verbatim>\<open>destroy\<close> that undoes a line of \<^verbatim>\<open>create\<close>: the generator pushes
  one for the \<^verbatim>\<open>appendChild\<close> of an element and one for an \<^verbatim>\<open>addEventListener\<close>.
\<close>

fun mirror :: "instruction \<Rightarrow> instruction option" where
  "mirror (AppendElement p v) = Some (RemoveChild p v)"
| "mirror (AddEventListener p ev f) = Some (RemoveEventListener p ev f)"
| "mirror _ = None"

text \<open>
  A later state of the generator extends an earlier one when the lines added to
  \<^verbatim>\<open>code.destroy\<close> are the mirror images of the lines added to \<^verbatim>\<open>code.create\<close>.
\<close>

definition extends :: "code \<times> nat \<Rightarrow> code \<times> nat \<Rightarrow> bool" where
  "extends s s' =
     (\<exists>cr. code_create (fst s') = code_create (fst s) @ cr \<and>
           code_destroy (fst s') = code_destroy (fst s) @ List.map_filter mirror cr)"

text \<open>The names a guard tests, and the guards of a list of lines.\<close>

fun guard_names :: "guard \<Rightarrow> string list" where
  "guard_names (Includes x) = [x]"
| "guard_names (SomeIncluded xs) = xs"

fun guard_of :: "instruction \<Rightarrow> guard option" where
  "guard_of (Patch g v e) = Some g"
| "guard_of _ = None"

text \<open>
  The expressions of the interpolations of a template, in the order in which
  \<^verbatim>\<open>generate\<close> walks it (attributes, then children), and the values of its attributes.
\<close>

function expressions_of :: "fragment \<Rightarrow> jsnode list" where
  "expressions_of f =
     (case f of
        Element name as cs \<Rightarrow> concat (map expressions_of as) @ concat (map expressions_of cs)
      | Expression e \<Rightarrow> [e]
      | _ \<Rightarrow> [])"
  by pat_completeness auto
termination
  by (relation "measure size") (auto simp: less_Suc_eq_le dest: size_member)

declare expressions_of.simps [simp del]

function attribute_values_of :: "fragment \<Rightarrow> jsnode list" where
  "attribute_values_of f =
     (case f of
        Element name as cs \<Rightarrow>
          concat (map attribute_values_of as) @ concat (map attribute_values_of cs)
      | Attribute name v \<Rightarrow> [v]
      | _ \<Rightarrow> [])"
  by pat_completeness auto
termination
  by (relation "measure size") (auto simp: less_Suc_eq_le dest: size_member)

declare attribute_values_of.simps [simp del]

definition intersects :: "string option list \<Rightarrow> jsnode \<Rightarrow> bool" where
  "intersects wc e = list_ex (\<lambda>name. Some name \<in> set wc) (extract_names e)"

text \<open>An expression built from identifiers, literals and binary operators only.\<close>

fun binary_shape :: "jsnode \<Rightarrow> bool" where
  "binary_shape (Identifier x) = True"
| "binary_shape (Literal v) = True"
| "binary_shape (BinaryExpression op l r) = (binary_shape l \<and> binary_shape r)"
| "binary_shape _ = False"

text \<open>
  The guards that the interpolations \<open>es\<close> get: one for each expression with a name
  that will change, made of those names.
\<close>

definition patch_guards :: "string option list \<Rightarrow> jsnode list \<Rightarrow> guard list" where
  "patch_guards wc es =
     map (\<lambda>e. condition_of (changes_of wc (extract_names e))) (filter (intersects wc) es)"

text \<open>
  A later state of the generator grows an earlier one by the interpolations \<open>es\<close>
  when the lines added to \<^verbatim>\<open>code.update\<close> are as many as, and carry the guards of,
  the interpolations among \<open>es\<close> that have a name that will change.
\<close>

definition grows :: "string option list \<Rightarrow> jsnode list \<Rightarrow> code \<times> nat \<Rightarrow> code \<times> nat \<Rightarrow> bool" where
  "grows wc es s s' =
     (code_update (fst s') = code_update (fst s) @ drop (length (code_update (fst s))) (code_update (fst s')) \<and>
      List.map_filter guard_of (drop (length (code_update (fst s))) (code_update (fst s'))) = patch_guards wc es \<and>
      length (code_update (fst s')) = length (code_update (fst s)) + length (patch_guards wc es))"

text \<open>
  The names that the template walk of \<^verbatim>\<open>analyse\<close> finds in a fragment: the names
  \<^verbatim>\<open>extract_names\<close> gives for its interpolations and the \<^verbatim>\<open>name\<close> of its attribute
  values.
\<close>

definition used_names :: "fragment \<Rightarrow> string option set" where
  "used_names f =
     Some ` (\<Union>e\<in>set (expressions_of f). set (extract_names e)) \<union>
     node_name ` set (attribute_values_of f)"

text \<open>
  A comparator is a consistent ordering of the elements of a list, in the sense of
  ECMAScript, when comparing two of them either way gives opposite signs and
  \<open>\<le>\<close> is transitive on them.
\<close>

definition consistent :: "('a \<Rightarrow> 'a \<Rightarrow> int) \<Rightarrow> 'a list \<Rightarrow> bool" where
  "consistent cmp xs =
     (\<forall>a\<in>set xs. \<forall>b\<in>set xs. \<forall>c\<in>set xs.
        (cmp a b < 0 \<longleftrightarrow> 0 < cmp b a) \<and> (cmp a b \<le> 0 \<and> cmp b c \<le> 0 \<longrightarrow> cmp a c \<le> 0))"

text \<open>\<open>x\<close> stands before \<open>y\<close> in a list.\<close>

definition precedes :: "'a \<Rightarrow> 'a \<Rightarrow> 'a list \<Rightarrow> bool" where
  "precedes x y zs = (\<exists>us vs ws. zs = us @ x # vs @ y # ws)"

text \<open>
  A line of \<^verbatim>\<open>destroy\<close> is a \<^verbatim>\<open>removeEventListener\<close>, or a \<^verbatim>\<open>removeChild\<close> on
  \<^verbatim>\<open>target\<close> or on one of the variables \<open>V\<close>; a state of the generator is tidy
  when its variables include \<open>V\<close> and the lines of \<^verbatim>\<open>code.destroy\<close> are such lines
  for its variables.
\<close>

definition teardown_line :: "string option set \<Rightarrow> instruction \<Rightarrow> bool" where
  "teardown_line V i =
     (case i of
        RemoveChild p v \<Rightarrow> p = ''target'' \<or> Some p \<in> V
      | RemoveEventListener p ev f \<Rightarrow> True
      | _ \<Rightarrow> False)"

definition tidy :: "string option set \<Rightarrow> code \<times> nat \<Rightarrow> bool" where
  "tidy V s = (V \<subseteq> set (code_variables (fst s)) \<and>
     (\<forall>i\<in>set (code_destroy (fst s)). teardown_line (set (code_variables (fst s))) i))"

text \<open>
  Positions in a syntax tree are paths: the list of the indices of the children taken
  from the root. \<open>subterm_at n p\<close> is the node at the path \<open>p\<close> below \<open>n\<close>, and
  \<open>scope_at cur n p\<close> is the scope that is current when the tree walker comes to that
  node, having started at \<open>n\<close> with the scope \<open>cur\<close>: each node on the way that has
  a scope of its own has made that scope the current one.
\<close>

fun subterm_at :: "jsnode \<Rightarrow> nat list \<Rightarrow> jsnode option" where
  "subterm_at n [] = Some n"
| "subterm_at n (i # p) = (if i < length (children n) then subterm_at (children n ! i) p else None)"

fun scope_at :: "scope \<Rightarrow> jsnode \<Rightarrow> nat list \<Rightarrow> scope" where
  "scope_at cur n [] = cur"
| "scope_at cur n (i # p) = scope_at (enter_scope n cur) (children n ! i) p"

text \<open>
  The second walk over the script comes to the node at a path when none of the nodes
  above it is replaced (\<^verbatim>\<open>this.skip()\<close> keeps the walk out of a replaced node).
\<close>

fun visited :: "host \<Rightarrow> scope \<Rightarrow> string option list \<Rightarrow> scope \<Rightarrow> jsnode \<Rightarrow> nat list \<Rightarrow> bool" where
  "visited h root used cur n [] = True"
| "visited h root used cur n (i # p) =
     (notify_names h root used cur n = [] \<and> visited h root used (enter_scope n cur) (children n ! i) p)"

text \<open>A tree in which the walk finds no mutation with a name to notify.\<close>

function quiet :: "host \<Rightarrow> scope \<Rightarrow> string option list \<Rightarrow> scope \<Rightarrow> jsnode \<Rightarrow> bool" where
  "quiet h root used cur n =
     (notify_names h root used cur n = [] \<and>
      list_all (quiet h root used (enter_scope n cur)) (children n))"
  by pat_completeness auto
termination
  by (relation "measure (\<lambda>(h, root, used, cur, n). size n)") (auto simp: size_children)

declare quiet.simps [simp del]



text \<open>
  The loop heads that a run of \<^verbatim>\<open>parse\<close> on \<open>content\<close> comes to: the loop of the top
  level at the start; the same loop after a fragment that was parsed; and the loop over
  the children of an element whose opening tag was parsed. \<open>reached h content c st\<close>
  says that the loop with condition \<open>c\<close> is at its head in state \<open>st\<close>.
\<close>

inductive reached :: "host \<Rightarrow> string \<Rightarrow> string option \<Rightarrow> pstate \<Rightarrow> bool"
  for h :: host and content :: string
where
  start: "reached h content None (0, None)"
| following: "reached h content c st \<Longrightarrow> condition content c (fst st) \<Longrightarrow>
     parseFragment h content n st = Ok (f, st') \<Longrightarrow> reached h content c st'"
| children: "reached h content c st \<Longrightarrow> condition content c (fst st) \<Longrightarrow>
     parseScript h content st = Ok st1 \<Longrightarrow> match content (fst st1) ''<'' \<Longrightarrow>
     openTag h content n (fst st1) = Ok (tagName, attributes, i) \<Longrightarrow>
     reached h content (Some (endTag tagName)) (i, snd st1)"

text \<open>
  The cursors at which the loop of \<^verbatim>\<open>parseAttributeList\<close> is at its head, in the
  opening tag whose \<^verbatim>\<open><\<close> is at \<open>i0\<close>: after the tag name and the white space, and
  after each attribute that was parsed and the white space behind it.
\<close>

inductive attribute_at :: "host \<Rightarrow> string \<Rightarrow> int \<Rightarrow> int \<Rightarrow> bool"
  for h :: host and content :: string and i0 :: int
where
  first: "attribute_at h content i0 (skipWhitespace content (snd (readWhileMatching Lower content (i0 + 1))))"
| following: "attribute_at h content i0 i \<Longrightarrow> \<not> match content i ''>'' \<Longrightarrow>
     parseAttribute h content i = Ok (a, i1) \<Longrightarrow> attribute_at h content i0 (skipWhitespace content i1)"


text \<open>
  The errors that name one of the three delimiters \<^verbatim>\<open>={\<close>, \<^verbatim>\<open>}\<close> and
  \<^verbatim>\<open></script>\<close>, and the syntax errors of acorn.
\<close>

definition named :: "error \<Rightarrow> bool" where
  "named e = ((\<exists>m. e = HostSyntaxError m) \<or>
     (\<exists>str\<in>{''={'', ''}'', ''</script>''}.
        e = Error (''Parse error: expecting '' @ [CHR 0x22] @ str @ [CHR 0x22])))"

section \<open>Sample components\<close>

definition button_ast :: ast where
  "button_ast = \<lparr>html = [Element ''button'' [Attribute ''on:click'' (Identifier ''decrement'')]
                             [Text ''Decrement'']],
                 script = Some (Program [])\<rparr>"

definition no_analysis :: analysis where
  "no_analysis = \<lparr>variables = [], willChange = [], willUseInTemplate = [],
       rootScope = Scope [] None, reactiveDeclarations = []\<rparr>"

definition sums_ast :: ast where
  "sums_ast = \<lparr>html = [Expression (BinaryExpression ''+'' (Identifier ''a'') (Identifier ''b'')),
                        Expression (Identifier ''a''),
                        Expression (Identifier ''c'')],
               script = Some (Program [])\<rparr>"

definition logical_ast :: ast where
  "logical_ast =
     \<lparr>html = [Expression (LogicalExpression ''&&'' (Identifier ''a'') (Identifier ''b''))],
      script = Some (Program [])\<rparr>"

text \<open>
  A script that assigns to the undeclared name \<open>total\<close>, which the template shows;
  and the mutation of the counter component, inside its arrow function.
\<close>

definition global_script :: jsnode where
  "global_script =
     Program [ExpressionStatement (AssignmentExpression ''='' (Identifier ''total'') (Literal ''1''))]"

definition global_ast :: ast where
  "global_ast = \<lparr>html = [Expression (Identifier ''total'')], script = Some global_script\<rparr>"

definition global_host :: host where
  "global_host = sample_host global_script (Scope [] None) [''total'']"

definition counter_increment :: jsnode where
  "counter_increment = UpdateExpression ''++'' False (Identifier ''counter'')"

definition counter_root :: scope where
  "counter_root = Scope [''counter'', ''increment''] None"

text \<open>
  Derived statements. \<open>derived i x y\<close> is the statement \<^verbatim>\<open>$: x = y + 1\<close> at
  position \<open>i\<close> of the script.
\<close>

definition derived :: "nat \<Rightarrow> string \<Rightarrow> string \<Rightarrow> reactiveDeclaration" where
  "derived i x y =
     \<lparr>assignees = [Some x], dependencies = [y],
      node = ExpressionStatement
        (AssignmentExpression ''='' (Identifier x) (BinaryExpression ''+'' (Identifier y) (Literal ''1''))),
      index = i\<rparr>"

definition empty_ast :: ast where
  "empty_ast = \<lparr>html = [], script = Some (Program [])\<rparr>"

text \<open>
  The counter component: \<^verbatim>\<open>let counter = 0; const increment = () => counter++;\<close>
  with the template \<^verbatim>\<open>{counter}\<close>; its module; an engine that knows the statement
  \<^verbatim>\<open>counter++\<close> and the value of a variable; and the instance after \<^verbatim>\<open>create\<close>.
\<close>

definition counter_script :: jsnode where
  "counter_script =
     Program
       [Other ''VariableDeclaration'' None
          [Other ''VariableDeclarator'' None [Identifier ''counter'', Literal ''0'']],
        Other ''VariableDeclaration'' None
          [Other ''VariableDeclarator'' None
             [Identifier ''increment'',
              Other ''ArrowFunctionExpression'' (Some []) [counter_increment]]]]"

definition counter_ast :: ast where
  "counter_ast = \<lparr>html = [Expression (Identifier ''counter'')], script = Some counter_script\<rparr>"

definition counter_host :: host where
  "counter_host = sample_host counter_script counter_root []"

definition counter_analysis :: analysis where
  "counter_analysis =
     \<lparr>variables = [''counter'', ''increment''], willChange = [Some ''counter''],
      willUseInTemplate = [Some ''counter''], rootScope = counter_root,
      reactiveDeclarations = []\<rparr>"

definition counter_module :: module where
  "counter_module =
     \<lparr>declared = [Some ''txt_1''], script_text = [], seed = [Some ''counter''], blocks = [],
      lifecycle_create =
        [CreateExpressionText ''txt_1'' ''counter'', AppendExpression ''target'' ''txt_1''],
      lifecycle_update = [Patch (Includes ''counter'') ''txt_1'' ''counter''],
      lifecycle_destroy = []\<rparr>"



text \<open>
  The module of the button component, and a page on which \<open>decrement\<close> is a function
  of the script and no other name is bound.
\<close>

definition button_module :: module where
  "button_module =
     \<lparr>declared = [Some ''button_1'', Some ''txt_2''], script_text = [],
          seed = [], blocks = [],
          lifecycle_create =
            [CreateElement ''button_1'' ''button'',
             AddEventListener ''button_1'' ''click'' (Some ''decrement''),
             CreateText ''txt_2'' ''Decrement'', AppendText ''button_1'' ''txt_2'',
             AppendElement ''target'' ''button_1''],
          lifecycle_update = [],
          lifecycle_destroy =
            [RemoveEventListener ''button_1'' ''click'' (Some ''decrement''),
             RemoveChild ''target'' ''button_1'']\<rparr>"

definition button_page :: "string \<Rightarrow> binding" where
  "button_page x = (if x = ''decrement'' then Value else Unbound)"

text \<open>The script \<^verbatim>\<open>total = counter++;\<close>, where \<open>total\<close> is declared nowhere.\<close>

definition nested_script :: jsnode where
  "nested_script =
     Program [ExpressionStatement (AssignmentExpression ''='' (Identifier ''total'') counter_increment)]"







text \<open>The stand-in for the libraries with an empty script.\<close>

definition plain_host :: host where
  "plain_host = sample_host (Program []) (Scope [] None) []"

section \<open>Auxiliary facts\<close>

lemma map_filter_append: "List.map_filter f (xs @ ys) = List.map_filter f xs @ List.map_filter f ys"
  by (simp add: List.map_filter_def)

lemma set_set_add [simp]: "set (set_add x xs) = insert x (set xs)"
  by (auto simp: set_add_def)

lemma identifiers_unfold:
  "identifiers (Identifier x) = [x]"
  "identifiers (Literal v) = []"
  "identifiers (BinaryExpression op l r) = identifiers l @ identifiers r"
  "identifiers (LogicalExpression op l r) = identifiers l @ identifiers r"
  "identifiers (UpdateExpression op prefix a) = identifiers a"
  "identifiers (AssignmentExpression op l r) = identifiers l @ identifiers r"
  "identifiers (SequenceExpression es) = concat (map identifiers es)"
  "identifiers (CallExpression f as) = identifiers f @ concat (map identifiers as)"
  "identifiers (ArrayExpression es) = concat (map identifiers es)"
  "identifiers (ExpressionStatement e) = identifiers e"
  "identifiers (LabeledStatement lb b) = identifiers b"
  "identifiers (Program bd) = concat (map identifiers bd)"
  "identifiers (Other t sc ks) = concat (map identifiers ks)"
  by (subst identifiers.simps, simp)+

lemmas run_generate = generate_def traverse.simps Let_def empty_code_def js_sort_def

lemmas run_analyse = analyse_def sample_host_def Let_def walk_change.simps traverse_use.simps
  enter_scope_def leave_scope_def target_names_def change_names_def set_add_def

lemma leave_enter: "leave_scope n (enter_scope n cur) = cur"
  by (simp add: leave_scope_def enter_scope_def split: option.splits)

lemma fold_keeps_fst:
  "(\<And>x s. x \<in> set xs \<Longrightarrow> fst (f x s) = fst s) \<Longrightarrow> fst (fold f xs s) = fst s"
  by (induction xs arbitrary: s) simp_all

text \<open>
  Both walks over the script leave the current scope as they found it, so on leaving a
  node that has a scope the current scope is that scope, and it has a parent.
\<close>

lemma walk_change_scope: "fst (walk_change h root globals n s) = fst s"
proof (induction h root globals n s rule: walk_change.induct)
  case (1 h root globals n s)
  let ?cur = "enter_scope n (fst s)"
  let ?wc = "change_names root globals ?cur (target_names h n) (snd s)"
  have "fst (fold (walk_change h root globals) (children n) (?cur, ?wc)) = fst (?cur, ?wc)"
    by (rule fold_keeps_fst) (use 1 in auto)
  then show ?case
    by (subst walk_change.simps) (simp add: Let_def leave_enter)
qed

text \<open>With enough fuel the parser returns the tree of a well-formed source.\<close>

lemma parse_button:
  "parse (sample_host (Program []) (Scope [] None) [])
     ''<button on:click={decrement}>Decrement</button>'' 4 =
     Ok \<lparr>html = html button_ast, script = None\<rparr>"
  by code_simp

text \<open>
  Once the cursor is at the end of the input, no production moves it and none of them
  throws: the loop of an element that still waits for its closing tag never ends.
\<close>

lemma exhausted_loops:
  "int (length content) \<le> i \<Longrightarrow> e \<noteq> [] \<Longrightarrow> parseFragments h content n (Some e) (i, sc) = Diverge"
proof (induction n)
  case 0
  show ?case by simp
next
  case (Suc n)
  have m: "\<And>str. str \<noteq> [] \<Longrightarrow> \<not> match content i str"
    using Suc.prems(1) by (auto simp: match_def js_slice_def Let_def)
  have sc: "\<And>r. scan r content i = i"
    using Suc.prems(1) by (simp add: scan.simps)
  have t: "parseText content (i, sc) = (None, (i, sc))"
    using Suc.prems(1) by (simp add: parseText_def readWhileMatching_def sc js_slice_def Let_def trim_nonempty_def)
  have f: "parseFragment h content n (i, sc) = Ok (None, (i, sc))"
    by (simp add: parseScript_def m parseExpressionOrText_def parseExpression_def t)
  show ?case
    using Suc by (simp add: condition_def m f del: parseFragment.simps)
qed


text \<open>The generator only appends to its lists of lines.\<close>

lemma extends_refl: "extends s s"
  by (simp add: extends_def map_filter_simps)

lemma extends_trans: "extends s s' \<Longrightarrow> extends s' s'' \<Longrightarrow> extends s s''"
  by (auto simp: extends_def map_filter_append)

lemma fold_extends:
  "(\<And>x s. x \<in> set xs \<Longrightarrow> extends s (f x s)) \<Longrightarrow> extends s (fold f xs s)"
proof (induction xs arbitrary: s)
  case Nil
  show ?case by (simp add: extends_refl)
next
  case (Cons x xs)
  have "extends s (f x s)" using Cons.prems by simp
  moreover have "extends (f x s) (fold f xs (f x s))"
    using Cons.IH Cons.prems by simp
  ultimately show ?case using extends_trans by fastforce
qed

lemma traverse_extends: "extends s (traverse h wc p f s)"
proof (induction f arbitrary: p s)
  case (Element name as cs)
  let ?v = "name @ ''_'' @ show_nat (snd s)"
  let ?c1 = "(fst s)\<lparr>code_variables := code_variables (fst s) @ [Some ?v],
                           code_create := code_create (fst s) @ [CreateElement ?v name]\<rparr>"
  let ?s2 = "fold (traverse h wc ?v) as (?c1, Suc (snd s))"
  let ?s3 = "fold (traverse h wc ?v) cs ?s2"
  have a: "extends s (?c1, Suc (snd s))"
    by (simp add: extends_def List.map_filter_def)
  have b: "extends (?c1, Suc (snd s)) ?s2"
    by (rule fold_extends) (simp add: Element.IH(1))
  have c: "extends ?s2 ?s3"
    by (rule fold_extends) (simp add: Element.IH(2))
  have d: "extends ?s3 ((fst ?s3)\<lparr>code_create := code_create (fst ?s3) @ [AppendElement p ?v],
                         code_destroy := code_destroy (fst ?s3) @ [RemoveChild p ?v]\<rparr>, snd ?s3)"
    by (simp add: extends_def List.map_filter_def)
  have "traverse h wc p (Element name as cs) s =
     ((fst ?s3)\<lparr>code_create := code_create (fst ?s3) @ [AppendElement p ?v],
                         code_destroy := code_destroy (fst ?s3) @ [RemoveChild p ?v]\<rparr>, snd ?s3)"
    by (subst traverse.simps) (simp add: Let_def)
  then show ?case
    using extends_trans [OF extends_trans [OF extends_trans [OF a b] c] d] by simp
next
  case (Attribute name v)
  show ?case by (simp add: traverse.simps extends_def List.map_filter_def Let_def)
next
  case (Expression e)
  show ?case by (simp add: traverse.simps extends_def List.map_filter_def Let_def)
next
  case (Text v)
  show ?case by (simp add: traverse.simps extends_def List.map_filter_def Let_def)
qed

text \<open>On an expression of identifiers, literals and binary operators \<^verbatim>\<open>extract_names\<close>
  finds every identifier.\<close>

lemma binary_shape_identifiers: "binary_shape e \<Longrightarrow> extract_names e = identifiers e"
  by (induction e rule: binary_shape.induct) (simp_all add: identifiers_unfold)

text \<open>The analysis and the module of the counter component.\<close>

lemma counter_generated:
  "analyse counter_host counter_ast = Inr (counter_analysis, counter_ast)"
  "generate counter_host counter_ast counter_analysis = Inr counter_module"
  by (simp_all add: analyse_def generate_def sample_host_def Let_def walk_change.simps
      traverse_use.simps traverse.simps enter_scope_def leave_scope_def target_names_def
      change_names_def set_add_def empty_code_def js_sort_def notify_names_def
      counter_host_def counter_ast_def counter_script_def counter_analysis_def counter_module_def
      counter_root_def counter_increment_def changes_of_def condition_of_def spliced_def)

section \<open>The parser on malformed input\<close>

lemma open_div: "openTag h ''<div>'' (Suc k) 0 = Ok (''div'', [], 5)"
  by (simp add: openTag_def eat_def match_def js_slice_def readWhileMatching_def scan.simps
      regex_test_def char_at_def parseAttributeList_def skipWhitespace_def is_space_def Let_def)

text \<open>
  Claim C2. The claim: for every input in which the closing tag of an opened element
  never appears, \<^verbatim>\<open>parse\<close> terminates and raises a parse failure. The code on the
  input \<^verbatim>\<open><div>\<close>: whatever the fuel, and whatever the host, \<^verbatim>\<open>parse\<close> does not
  return and does not throw, and neither does the pipeline. The \<^verbatim>\<open>eat(endTag)\<close> after
  the loop shows the failure the code meant to raise; the loop never reaches it.
\<close>

theorem parse_unclosed_div_diverges:
  "parse h ''<div>'' n = Diverge \<and> compile h ''<div>'' n = Diverge"
proof -
  have "parseFragments h ''<div>'' n None (0, None) = Diverge"
  proof (cases n)
    case 0 then show ?thesis by simp
  next
    case (Suc k)
    have el: "parseElement h ''<div>'' k (0, None) = Diverge"
    proof (cases k)
      case 0
      then show ?thesis
        by (simp add: openTag_def eat_def match_def js_slice_def readWhileMatching_def scan.simps
            regex_test_def char_at_def parseAttributeList_def skipWhitespace_def is_space_def Let_def)
    next
      case (Suc j)
      have "parseFragments h ''<div>'' (Suc j) (Some (endTag ''div'')) (5, None) = Diverge"
        by (rule exhausted_loops) (simp_all add: endTag_def)
      then show ?thesis
        using Suc by (simp add: open_div match_def js_slice_def del: parseFragments.simps)
    qed
    show ?thesis
      using Suc el by (simp add: condition_def parseScript_def match_def js_slice_def del: parseElement.simps)
  qed
  then show ?thesis by (simp add: parse_def compile_def)
qed

section \<open>Missing delimiters\<close>

















text \<open>
  The parser throws nothing but the syntax errors of acorn and the errors of \<^verbatim>\<open>eat\<close>
  for \<^verbatim>\<open>={\<close>, \<^verbatim>\<open>}\<close> and \<^verbatim>\<open></script>\<close>: every other \<^verbatim>\<open>eat\<close> comes after a
  \<^verbatim>\<open>match\<close> of its delimiter, or after a loop that ends only where it matches.
\<close>

lemma named_simps [simp]:
  "named (HostSyntaxError m)" "named (Error (expecting ''={''))" "named (Error (expecting ''}''))"
  "named (Error (expecting ''</script>''))"
  by (simp_all add: named_def expecting_def dq_def)





















section \<open>Literal text\<close>

lemma read_literal_plain:
  "sq \<notin> set body \<Longrightarrow> backslash \<notin> set body \<Longrightarrow> CHR 0x0A \<notin> set body \<Longrightarrow> CHR 0x0D \<notin> set body
   \<Longrightarrow> read_literal (body @ sq # rest) = Closed body rest"
  by (induction body) auto

text \<open>
  Claim C10, as amended. For a \<open>Text\<close> node whose value has no single quote, no
  backslash and no line terminator (line feed, carriage return), the generator pushes
  the line that creates the text node and the line that appends it, and the string
  literal in the first line is well formed and denotes exactly the value.
\<close>

theorem text_literal_verbatim:
  assumes "sq \<notin> set txt" "backslash \<notin> set txt" "CHR 0x0A \<notin> set txt" "CHR 0x0D \<notin> set txt"
  shows "code_create (fst (traverse h wc p (Text txt) (c, k))) =
           code_create c @ [CreateText (''txt_'' @ show_nat k) txt, AppendText p (''txt_'' @ show_nat k)]
       \<and> text_argument (''txt_'' @ show_nat k) txt = Closed txt '')''"
proof -
  have "text_argument v txt = read_literal (txt @ sq # '')'')" for v
    by (simp add: text_argument_def)
  then show ?thesis
    using assms by (simp add: traverse.simps read_literal_plain Let_def)
qed

theorem text_literal_verbatim_witness:
  "sq \<notin> set ''Decrement'' \<and> backslash \<notin> set ''Decrement'' \<and> CHR 0x0A \<notin> set ''Decrement''
   \<and> CHR 0x0D \<notin> set ''Decrement''
   \<and> code_create (fst (traverse (sample_host (Program []) (Scope [] None) []) [] ''button_1''
        (Text ''Decrement'') (empty_code, 2))) =
      [CreateText ''txt_2'' ''Decrement'', AppendText ''button_1'' ''txt_2'']
   \<and> text_argument ''txt_2'' ''Decrement'' = Closed ''Decrement'' '')''"
proof -
  have a: "sq \<notin> set ''Decrement''" "backslash \<notin> set ''Decrement''"
    "CHR 0x0A \<notin> set ''Decrement''" "CHR 0x0D \<notin> set ''Decrement''"
    by (simp_all add: sq_def backslash_def)
  show ?thesis
    using a text_literal_verbatim [OF a, of "sample_host (Program []) (Scope [] None) []" "[]"
        "''button_1''" empty_code 2]
    by (simp add: empty_code_def)
qed

text \<open>
  The claim as stated asks for no quote and no backslash only. The source text
  \<open>a\<close>, line feed, \<open>b\<close> has neither; it parses to one \<open>Text\<close> node with that
  value, and the string literal of the emitted line is cut by the line feed.
\<close>

theorem text_newline_counterexample:
  "sq \<notin> set [CHR ''a'', CHR 0x0A, CHR ''b''] \<and> backslash \<notin> set [CHR ''a'', CHR 0x0A, CHR ''b'']
   \<and> parse (sample_host (Program []) (Scope [] None) []) [CHR ''a'', CHR 0x0A, CHR ''b''] 2 =
       Ok \<lparr>html = [Text [CHR ''a'', CHR 0x0A, CHR ''b'']], script = None\<rparr>
   \<and> code_create (fst (traverse (sample_host (Program []) (Scope [] None) []) [] ''target''
        (Text [CHR ''a'', CHR 0x0A, CHR ''b'']) (empty_code, 1))) =
      [CreateText ''txt_1'' [CHR ''a'', CHR 0x0A, CHR ''b''], AppendText ''target'' ''txt_1'']
   \<and> text_argument ''txt_1'' [CHR ''a'', CHR 0x0A, CHR ''b''] = Broken"
proof -
  have p: "parse (sample_host (Program []) (Scope [] None) []) [CHR ''a'', CHR 0x0A, CHR ''b''] 2 =
       Ok \<lparr>html = [Text [CHR ''a'', CHR 0x0A, CHR ''b'']], script = None\<rparr>"
    by (simp add: parse_def numeral_2_eq_2 condition_def parseScript_def match_def js_slice_def
        parseExpressionOrText_def parseExpression_def parseText_def readWhileMatching_def scan.simps
        regex_test_def char_at_def trim_nonempty_def is_space_def push_fragment_def Let_def)
  have t: "text_argument ''txt_1'' [CHR ''a'', CHR 0x0A, CHR ''b''] = Broken"
    by (simp add: text_argument_def sq_def backslash_def)
  show ?thesis
    using p t by (simp add: traverse.simps empty_code_def sq_def backslash_def Let_def)
qed

section \<open>Teardown\<close>

text \<open>
  The lines of \<^verbatim>\<open>destroy\<close> are the mirror images of the \<^verbatim>\<open>appendChild\<close> lines of
  elements and of the \<^verbatim>\<open>addEventListener\<close> lines of \<^verbatim>\<open>create\<close>, in the same order;
  an event binding \<^verbatim>\<open>on:ev={handler}\<close> has the same event type and handler in both.
  The text nodes of \<open>Text\<close> and \<open>Expression\<close> nodes have no line in \<^verbatim>\<open>destroy\<close>.
\<close>

lemma destroy_lines:
  assumes "generate h a A = Inr m"
  shows "lifecycle_destroy m = List.map_filter mirror (lifecycle_create m)
    \<and> code_create (fst (traverse h wc p (Attribute (''on:'' @ ev) v) (c, k))) =
        code_create c @ [AddEventListener p ev (node_name v)]
    \<and> code_destroy (fst (traverse h wc p (Attribute (''on:'' @ ev) v) (c, k))) =
        code_destroy c @ [RemoveEventListener p ev (node_name v)]"
proof -
  have ev: "code_create (fst (traverse h wc p (Attribute (''on:'' @ ev) v) (c, k))) =
        code_create c @ [AddEventListener p ev (node_name v)]
    \<and> code_destroy (fst (traverse h wc p (Attribute (''on:'' @ ev) v) (c, k))) =
        code_destroy c @ [RemoveEventListener p ev (node_name v)]"
    by (simp add: traverse.simps Let_def)
  let ?s = "fold (traverse h (willChange A) ''target'') (html a) (empty_code, 1)"
  have "extends (empty_code, 1) ?s"
    by (rule fold_extends) (rule traverse_extends)
  then have "code_destroy (fst ?s) = List.map_filter mirror (code_create (fst ?s))"
    by (auto simp: extends_def empty_code_def)
  then have "lifecycle_destroy m = List.map_filter mirror (lifecycle_create m)"
    using assms by (auto simp: generate_def Let_def split: option.splits)
  then show ?thesis using ev by simp
qed

lemma run_fails:
  "i \<in> set is \<Longrightarrow> (\<And>s. \<exists>e. exec m outer params i s = Inl e) \<Longrightarrow>
     \<exists>e. fst (run m outer params is s) = Some e"
proof (induction "is" arbitrary: s)
  case Nil
  then show ?case by simp
next
  case (Cons j js)
  show ?case
  proof (cases "exec m outer params j s")
    case (Inl e)
    then show ?thesis by simp
  next
    case (Inr s')
    then have "j \<noteq> i" using Cons.prems(2) [of s] by auto
    then have "i \<in> set js" using Cons.prems(1) by simp
    from Cons.IH [OF this Cons.prems(2)] show ?thesis using Inr by simp
  qed
qed

lemma run_keeps:
  "(\<And>i s s'. i \<in> set is \<Longrightarrow> exec m outer params i s = Inr s' \<Longrightarrow> P s' = P s) \<Longrightarrow>
     P (snd (run m outer params is s)) = P s"
proof (induction "is" arbitrary: s)
  case Nil
  then show ?case by simp
next
  case (Cons j js)
  show ?case
  proof (cases "exec m outer params j s")
    case (Inl e)
    then show ?thesis by simp
  next
    case (Inr s')
    have "P (snd (run m outer params js s')) = P s'"
    proof (rule Cons.IH)
      fix i t t' assume "i \<in> set js" "exec m outer params i t = Inr t'"
      then show "P t' = P t" using Cons.prems [of i t t'] by simp
    qed
    moreover have "P s' = P s" using Cons.prems [of j s s'] Inr by simp
    ultimately show ?thesis using Inr by simp
  qed
qed


lemma teardown_line_mono: "teardown_line V i \<Longrightarrow> V \<subseteq> W \<Longrightarrow> teardown_line W i"
  by (auto simp: teardown_line_def split: instruction.splits)

lemma tidy_weaken: "tidy V s \<Longrightarrow> W \<subseteq> V \<Longrightarrow> tidy W s"
  by (auto simp: tidy_def)

lemma fold_tidy:
  "(\<And>x s. x \<in> set xs \<Longrightarrow> tidy V s \<Longrightarrow> tidy V (f x s)) \<Longrightarrow> tidy V s \<Longrightarrow> tidy V (fold f xs s)"
  by (induction xs arbitrary: s) simp_all

lemma traverse_tidy:
  "tidy V s \<Longrightarrow> p = ''target'' \<or> Some p \<in> V \<Longrightarrow> tidy V (traverse h wc p f s)"
proof (induction f arbitrary: p s V)
  case (Element name as cs)
  let ?v = "name @ ''_'' @ show_nat (snd s)"
  let ?c1 = "(fst s)\<lparr>code_variables := code_variables (fst s) @ [Some ?v],
                           code_create := code_create (fst s) @ [CreateElement ?v name]\<rparr>"
  let ?s2 = "fold (traverse h wc ?v) as (?c1, Suc (snd s))"
  let ?s3 = "fold (traverse h wc ?v) cs ?s2"
  let ?W = "insert (Some ?v) V"
  have a: "tidy ?W (?c1, Suc (snd s))"
    using Element.prems(1) by (auto simp: tidy_def intro: teardown_line_mono)
  have b: "tidy ?W ?s2"
    by (rule fold_tidy [OF _ a]) (simp add: Element.IH(1))
  have c: "tidy ?W ?s3"
    by (rule fold_tidy [OF _ b]) (simp add: Element.IH(2))
  have t: "traverse h wc p (Element name as cs) s =
     ((fst ?s3)\<lparr>code_create := code_create (fst ?s3) @ [AppendElement p ?v],
                         code_destroy := code_destroy (fst ?s3) @ [RemoveChild p ?v]\<rparr>, snd ?s3)"
    by (subst traverse.simps) (simp add: Let_def)
  have "teardown_line (set (code_variables (fst ?s3))) (RemoveChild p ?v)"
    using c Element.prems(2) by (auto simp: tidy_def teardown_line_def)
  then show ?case
    unfolding t using c by (auto simp: tidy_def)
next
  case (Attribute name v)
  show ?case
  proof (cases "take 3 name = ''on:''")
    case True
    have t: "traverse h wc p (Attribute name v) s =
       ((fst s)\<lparr>code_create := code_create (fst s) @ [AddEventListener p (drop 3 name) (node_name v)],
                 code_destroy := code_destroy (fst s) @ [RemoveEventListener p (drop 3 name) (node_name v)]\<rparr>,
        snd s)"
      using True by (simp add: traverse.simps Let_def)
    show ?thesis
      unfolding t using Attribute.prems(1) by (auto simp: tidy_def teardown_line_def)
  next
    case False
    then show ?thesis using Attribute.prems(1) by (simp add: traverse.simps)
  qed
next
  case (Expression e)
  then show ?case
    by (auto simp: traverse.simps tidy_def Let_def intro: teardown_line_mono)
next
  case (Text v)
  then show ?case
    by (auto simp: traverse.simps tidy_def Let_def intro: teardown_line_mono)
qed

lemma extends_destroy:
  "extends s s' \<Longrightarrow> set (code_destroy (fst s)) \<subseteq> set (code_destroy (fst s'))"
  by (auto simp: extends_def)

lemma top_level_line:
  assumes "Element name as cs \<in> set fs"
  shows "\<exists>v. RemoveChild ''target'' v \<in> set (code_destroy (fst (fold (traverse h wc ''target'') fs s)))"
proof -
  from assms obtain xs ys where fs: "fs = xs @ Element name as cs # ys"
    by (auto dest: split_list)
  let ?s1 = "fold (traverse h wc ''target'') xs s"
  let ?s2 = "traverse h wc ''target'' (Element name as cs) ?s1"
  have "RemoveChild ''target'' (name @ ''_'' @ show_nat (snd ?s1)) \<in> set (code_destroy (fst ?s2))"
    by (subst traverse.simps) (simp add: Let_def)
  moreover have "extends ?s2 (fold (traverse h wc ''target'') ys ?s2)"
    by (rule fold_extends) (rule traverse_extends)
  ultimately have "RemoveChild ''target'' (name @ ''_'' @ show_nat (snd ?s1))
      \<in> set (code_destroy (fst (fold (traverse h wc ''target'') ys ?s2)))"
    using extends_destroy by blast
  then show ?thesis by (auto simp: fs)
qed

lemma unbound_target:
  "Some ''target'' \<notin> set (declared m) \<Longrightarrow> outer ''target'' = Unbound \<Longrightarrow>
     exec m outer Map.empty (RemoveChild ''target'' v) s = Inl (ReferenceError ''target'')"
  by (simp add: node_of_def resolve_def)

lemma teardown_keeps_mount:
  assumes "teardown_line V i" "V \<subseteq> set (declared m)" "Some ''target'' \<notin> set (declared m)"
    "outer ''target'' = Unbound" "exec m outer Map.empty i s = Inr s'"
  shows "kids s' Mount = kids s Mount"
proof (cases i)
  case (RemoveChild p v)
  show ?thesis
  proof (cases "p = ''target''")
    case True
    then show ?thesis using assms(3,4,5) RemoveChild by (simp add: node_of_def resolve_def)
  next
    case False
    then have "Some p \<in> set (declared m)"
      using assms(1,2) RemoveChild by (auto simp: teardown_line_def)
    then have "node_of m outer Map.empty s p = Inr (Made p) \<or> (\<exists>e. node_of m outer Map.empty s p = Inl e)"
      by (simp add: node_of_def resolve_def)
    then show ?thesis
      using assms(5) RemoveChild by (auto split: sum.splits if_splits)
  qed
next
  case (RemoveEventListener p ev f)
  then show ?thesis
    using assms(5)
    by (auto simp: listener_line_def split: sum.splits option.splits binding.splits)
qed (use assms(1) in \<open>simp_all add: teardown_line_def\<close>)

text \<open>
  Claim C5. The claim: \<^verbatim>\<open>destroy()\<close> after \<^verbatim>\<open>create(target)\<close> detaches every node
  that \<^verbatim>\<open>create\<close> attached to the mount target. The code: for a template with an
  element at its top level, \<^verbatim>\<open>destroy\<close> has the line \<^verbatim>\<open>target.removeChild(...)\<close>, but
  \<^verbatim>\<open>target\<close> is the parameter of \<^verbatim>\<open>create\<close> alone. Where neither the module nor the
  page binds the name, that line throws a \<^verbatim>\<open>ReferenceError\<close> in whatever state it is
  run; so \<^verbatim>\<open>destroy\<close> always throws, and the children of the mount target are after it
  what they were before it.
\<close>

theorem destroy_throws:
  assumes "generate h a A = Inr m" and "Element name as cs \<in> set (html a)"
    and "Some ''target'' \<notin> set (declared m)" and "outer ''target'' = Unbound"
  shows "(\<exists>v. RemoveChild ''target'' v \<in> set (lifecycle_destroy m)
            \<and> (\<forall>t. exec m outer Map.empty (RemoveChild ''target'' v) t = Inl (ReferenceError ''target'')))
    \<and> (\<exists>e. fst (destroy_page m outer s) = Some e)
    \<and> kids (snd (destroy_page m outer s)) Mount = kids s Mount"
proof -
  let ?s = "fold (traverse h (willChange A) ''target'') (html a) (empty_code, 1)"
  have d: "lifecycle_destroy m = code_destroy (fst ?s)"
    and v: "set (code_variables (fst ?s)) \<subseteq> set (declared m)"
    using assms(1) by (auto simp: generate_def Let_def split: option.splits)
  from top_level_line [OF assms(2)] obtain v where
    v1: "RemoveChild ''target'' v \<in> set (lifecycle_destroy m)"
    unfolding d by blast
  have v2: "\<forall>t. exec m outer Map.empty (RemoveChild ''target'' v) t = Inl (ReferenceError ''target'')"
    using unbound_target [where outer = outer, OF assms(3,4)] by blast
  have 2: "\<exists>e. fst (destroy_page m outer s) = Some e"
    unfolding destroy_page_def using v1 v2 by (intro run_fails [where i = "RemoveChild ''target'' v"]) auto
  have "tidy {} (empty_code, 1)"
    by (simp add: tidy_def empty_code_def)
  then have "tidy {} ?s"
    by (rule fold_tidy [rotated]) (simp add: traverse_tidy)
  then have l: "\<And>i. i \<in> set (lifecycle_destroy m) \<Longrightarrow> teardown_line (set (code_variables (fst ?s))) i"
    by (simp add: tidy_def d)
  have 3: "kids (snd (destroy_page m outer s)) Mount = kids s Mount"
    unfolding destroy_page_def
    by (rule run_keeps [where P = "\<lambda>s. kids s Mount"])
       (rule teardown_keeps_mount [where outer = outer, OF l v assms(3,4)])
  show ?thesis using v1 v2 2 3 by blast
qed

text \<open>
  The button component: \<^verbatim>\<open>create\<close> attaches the button to the mount target and
  registers the listener; \<^verbatim>\<open>destroy\<close> unregisters the listener, throws at
  \<^verbatim>\<open>target.removeChild(button_1)\<close>, and the button is still attached.
\<close>

theorem destroy_throws_witness:
  "generate plain_host button_ast (no_analysis\<lparr>willUseInTemplate := [Some ''decrement'']\<rparr>) =
     Inr button_module
   \<and> Element ''button'' [Attribute ''on:click'' (Identifier ''decrement'')] [Text ''Decrement'']
        \<in> set (html button_ast)
   \<and> Some ''target'' \<notin> set (declared button_module)
   \<and> button_page ''target'' = Unbound
   \<and> fst (create_page button_module button_page empty_page) = None
   \<and> kids (snd (create_page button_module button_page empty_page)) Mount = [Made ''button_1'']
   \<and> listeners (snd (create_page button_module button_page empty_page)) (Made ''button_1'') =
       [(''click'', ''decrement'')]
   \<and> fst (destroy_page button_module button_page (snd (create_page button_module button_page empty_page))) =
       Some (ReferenceError ''target'')
   \<and> kids (snd (destroy_page button_module button_page
        (snd (create_page button_module button_page empty_page)))) Mount = [Made ''button_1'']
   \<and> listeners (snd (destroy_page button_module button_page
        (snd (create_page button_module button_page empty_page)))) (Made ''button_1'') = []"
proof -
  have g: "generate plain_host button_ast (no_analysis\<lparr>willUseInTemplate := [Some ''decrement'']\<rparr>) =
     Inr button_module"
    by (simp add: run_generate button_ast_def no_analysis_def plain_host_def sample_host_def
        button_module_def)
  have e: "Element ''button'' [Attribute ''on:click'' (Identifier ''decrement'')] [Text ''Decrement'']
        \<in> set (html button_ast)"
    by (simp add: button_ast_def)
  have t: "Some ''target'' \<notin> set (declared button_module)"
    by (simp add: button_module_def)
  have u: "button_page ''target'' = Unbound"
    by (simp add: button_page_def)
  let ?s = "snd (create_page button_module button_page empty_page)"
  have c: "create_page button_module button_page empty_page =
      (None, \<lparr>made = [''txt_2'', ''button_1''],
              kids = (\<lambda>n. if n = Mount then [Made ''button_1'']
                           else if n = Made ''button_1'' then [Made ''txt_2''] else []),
              listeners = (\<lambda>n. if n = Made ''button_1'' then [(''click'', ''decrement'')] else [])\<rparr>)"
    by (simp add: create_page_def button_module_def empty_page_def assign_def append_line_def
        node_of_def resolve_def listener_line_def appendChild_def button_page_def fun_eq_iff)
  have d: "fst (destroy_page button_module button_page ?s) = Some (ReferenceError ''target'')"
    "listeners (snd (destroy_page button_module button_page ?s)) (Made ''button_1'') = []"
    unfolding c snd_conv
    by (simp_all add: destroy_page_def button_module_def node_of_def resolve_def
        listener_line_def button_page_def)
  have k: "kids (snd (destroy_page button_module button_page ?s)) Mount = [Made ''button_1'']"
    using destroy_throws [where outer = button_page and s = ?s, OF g e t u] by (simp add: c)
  show ?thesis using g e t u c d k by simp
qed

section \<open>The guards of the patch lines\<close>

lemma patch_guards_append: "patch_guards wc (xs @ ys) = patch_guards wc xs @ patch_guards wc ys"
  by (simp add: patch_guards_def)

lemma growsI:
  "code_update (fst s') = code_update (fst s) @ up \<Longrightarrow> List.map_filter guard_of up = patch_guards wc es
   \<Longrightarrow> length up = length (patch_guards wc es) \<Longrightarrow> grows wc es s s'"
  by (simp add: grows_def)

lemma growsD:
  "grows wc es s s' \<Longrightarrow> \<exists>up. code_update (fst s') = code_update (fst s) @ up \<and>
     List.map_filter guard_of up = patch_guards wc es \<and> length up = length (patch_guards wc es)"
  unfolding grows_def
  by (metis add_diff_cancel_left' length_drop)

lemma grows_trans: "grows wc es s s' \<Longrightarrow> grows wc es' s' s'' \<Longrightarrow> grows wc (es @ es') s s''"
proof -
  assume a: "grows wc es s s'" and b: "grows wc es' s' s''"
  from growsD [OF a] obtain up where up: "code_update (fst s') = code_update (fst s) @ up"
    "List.map_filter guard_of up = patch_guards wc es" "length up = length (patch_guards wc es)" by blast
  from growsD [OF b] obtain up' where up': "code_update (fst s'') = code_update (fst s') @ up'"
    "List.map_filter guard_of up' = patch_guards wc es'" "length up' = length (patch_guards wc es')" by blast
  show ?thesis
    by (rule growsI [where up = "up @ up'"]) (simp_all add: up up' patch_guards_append map_filter_append)
qed

lemma grows_fold:
  "(\<And>x s. x \<in> set xs \<Longrightarrow> grows wc (ex x) s (f x s)) \<Longrightarrow> grows wc (concat (map ex xs)) s (fold f xs s)"
proof (induction xs arbitrary: s)
  case Nil
  show ?case by (rule growsI [where up = "[]"]) (simp_all add: patch_guards_def List.map_filter_def)
next
  case (Cons x xs)
  have 1: "grows wc (ex x) s (f x s)" using Cons.prems by simp
  have 2: "grows wc (concat (map ex xs)) (f x s) (fold f xs (f x s))"
    using Cons.IH Cons.prems by simp
  show ?case using grows_trans [OF 1 2] by simp
qed

lemma traverse_grows: "grows wc (expressions_of f) s (traverse h wc p f s)"
proof (induction f arbitrary: p s)
  case (Element name as cs)
  let ?v = "name @ ''_'' @ show_nat (snd s)"
  let ?c1 = "(fst s)\<lparr>code_variables := code_variables (fst s) @ [Some ?v],
                           code_create := code_create (fst s) @ [CreateElement ?v name]\<rparr>"
  let ?s2 = "fold (traverse h wc ?v) as (?c1, Suc (snd s))"
  let ?s3 = "fold (traverse h wc ?v) cs ?s2"
  let ?s4 = "((fst ?s3)\<lparr>code_create := code_create (fst ?s3) @ [AppendElement p ?v],
                         code_destroy := code_destroy (fst ?s3) @ [RemoveChild p ?v]\<rparr>, snd ?s3)"
  have a: "grows wc [] s (?c1, Suc (snd s))"
    by (rule growsI [where up = "[]"]) (simp_all add: patch_guards_def List.map_filter_def)
  have b: "grows wc (concat (map expressions_of as)) (?c1, Suc (snd s)) ?s2"
    by (rule grows_fold) (simp add: Element.IH(1))
  have c: "grows wc (concat (map expressions_of cs)) ?s2 ?s3"
    by (rule grows_fold) (simp add: Element.IH(2))
  have d: "grows wc [] ?s3 ?s4"
    by (rule growsI [where up = "[]"]) (simp_all add: patch_guards_def List.map_filter_def)
  have t: "traverse h wc p (Element name as cs) s = ?s4"
    by (subst traverse.simps) (simp add: Let_def)
  have e: "expressions_of (Element name as cs) =
      [] @ concat (map expressions_of as) @ concat (map expressions_of cs) @ []"
    by (simp add: expressions_of.simps)
  show ?case
    unfolding t e
    by (rule grows_trans [OF a grows_trans [OF b grows_trans [OF c d]]])
next
  case (Attribute name v)
  show ?case
    by (rule growsI [where up = "[]"])
      (simp_all add: traverse.simps expressions_of.simps patch_guards_def List.map_filter_def Let_def)
next
  case (Expression e)
  show ?case
  proof (cases "intersects wc e")
    case True
    show ?thesis
      by (rule growsI [where up = "[Patch (condition_of (changes_of wc (extract_names e)))
            (''txt_'' @ show_nat (snd s)) (escodegen_generate h e)]"])
        (use True in \<open>simp_all add: traverse.simps expressions_of.simps patch_guards_def
          List.map_filter_def Let_def intersects_def\<close>)
  next
    case False
    show ?thesis
      by (rule growsI [where up = "[]"])
        (use False in \<open>simp_all add: traverse.simps expressions_of.simps patch_guards_def
          List.map_filter_def Let_def intersects_def\<close>)
  qed
next
  case (Text v)
  show ?case
    by (rule growsI [where up = "[]"])
      (simp_all add: traverse.simps expressions_of.simps patch_guards_def List.map_filter_def Let_def)
qed

lemma set_changes_fold:
  "set (fold (\<lambda>name cs. if P name then set_add name cs else cs) names acc) =
     set acc \<union> {x \<in> set names. P x}"
  by (induction names arbitrary: acc) auto

lemma set_changes_of: "set (changes_of wc names) = {x \<in> set names. Some x \<in> set wc}"
  by (simp add: changes_of_def set_changes_fold)

lemma guard_names_condition: "cs \<noteq> [] \<Longrightarrow> guard_names (condition_of cs) = cs"
  by (cases cs; cases "tl cs") (auto simp: condition_of_def spliced_def)

lemma guard_holds_names: "guard_holds g changed = (\<exists>x\<in>set (guard_names g). Some x \<in> set changed)"
  by (cases g) (auto simp: list_ex_iff)

text \<open>
  Claim C6, as amended. The names of an interpolation are those that
  \<^verbatim>\<open>extract_names\<close> gives for its expression: all its identifiers when it is built
  from identifiers, literals and binary operators only. The lines of \<^verbatim>\<open>update\<close> are,
  in the order of the template, one for each interpolation with a name in
  \<^verbatim>\<open>willChange\<close> and none for the others. The guard of such a line names exactly the
  names of the expression that are in \<^verbatim>\<open>willChange\<close>: it is written
  \<^verbatim>\<open>changed.includes('x')\<close> for one name and
  \<^verbatim>\<open>[...].some(name => changed.includes(name))\<close> for several. A guard holds for a
  change set when one of its names is in it, and the guard written for one name holds
  when the guard written for the list of that name does.
\<close>

theorem update_guards:
  assumes "generate h a A = Inr m"
  shows "List.map_filter guard_of (lifecycle_update m) =
           patch_guards (willChange A) (concat (map expressions_of (html a)))
    \<and> length (lifecycle_update m) =
        length (filter (intersects (willChange A)) (concat (map expressions_of (html a))))
    \<and> (intersects wc e \<longrightarrow>
         set (guard_names (condition_of (changes_of wc (extract_names e)))) =
           {x \<in> set (extract_names e). Some x \<in> set wc})
    \<and> (binary_shape e \<longrightarrow> extract_names e = identifiers e)
    \<and> condition_of [x] = Includes x
    \<and> (1 < length xs \<longrightarrow> condition_of xs = SomeIncluded xs)
    \<and> render (Patch (Includes x) v ex) =
         ''if (changed.includes('' @ [CHR 0x27] @ x @ [CHR 0x27] @ '')) {'' @ [CHR 0x0A] @
         ''            '' @ v @ ''.data = '' @ ex @ '';'' @ [CHR 0x0A] @ ''          }''
    \<and> render (Patch (SomeIncluded xs) v ex) =
         ''if ('' @ json_array (map Some xs) @ ''.some(name => changed.includes(name))) {'' @ [CHR 0x0A] @
         ''            '' @ v @ ''.data = '' @ ex @ '';'' @ [CHR 0x0A] @ ''          }''
    \<and> guard_holds g changed = (\<exists>x\<in>set (guard_names g). Some x \<in> set changed)
    \<and> guard_holds (Includes x) changed = guard_holds (SomeIncluded [x]) changed"
proof -
  let ?s = "fold (traverse h (willChange A) ''target'') (html a) (empty_code, 1)"
  have "grows (willChange A) (concat (map expressions_of (html a))) (empty_code, 1) ?s"
    by (rule grows_fold) (rule traverse_grows)
  from growsD [OF this] have 1:
    "List.map_filter guard_of (code_update (fst ?s)) =
       patch_guards (willChange A) (concat (map expressions_of (html a)))"
    "length (code_update (fst ?s)) =
       length (filter (intersects (willChange A)) (concat (map expressions_of (html a))))"
    by (auto simp: empty_code_def patch_guards_def)
  have 2: "lifecycle_update m = code_update (fst ?s)"
    using assms by (auto simp: generate_def Let_def split: option.splits)
  have 3: "intersects wc e \<longrightarrow>
         set (guard_names (condition_of (changes_of wc (extract_names e)))) =
           {x \<in> set (extract_names e). Some x \<in> set wc}"
  proof
    assume "intersects wc e"
    then have "set (changes_of wc (extract_names e)) \<noteq> {}"
      by (auto simp: intersects_def list_ex_iff set_changes_of)
    then have "changes_of wc (extract_names e) \<noteq> []" by auto
    then show "set (guard_names (condition_of (changes_of wc (extract_names e)))) =
           {x \<in> set (extract_names e). Some x \<in> set wc}"
      by (simp add: guard_names_condition set_changes_of)
  qed
  have 4: "binary_shape e \<longrightarrow> extract_names e = identifiers e"
    by (simp add: binary_shape_identifiers)
  have 5: "condition_of [x] = Includes x" "1 < length xs \<longrightarrow> condition_of xs = SomeIncluded xs"
    by (simp_all add: condition_of_def spliced_def)
  have 6: "render (Patch (Includes x) v ex) =
         ''if (changed.includes('' @ [CHR 0x27] @ x @ [CHR 0x27] @ '')) {'' @ [CHR 0x0A] @
         ''            '' @ v @ ''.data = '' @ ex @ '';'' @ [CHR 0x0A] @ ''          }''"
    "render (Patch (SomeIncluded xs) v ex) =
         ''if ('' @ json_array (map Some xs) @ ''.some(name => changed.includes(name))) {'' @ [CHR 0x0A] @
         ''            '' @ v @ ''.data = '' @ ex @ '';'' @ [CHR 0x0A] @ ''          }''"
    by (simp_all add: sq_def)
  have 7: "guard_holds g changed = (\<exists>x\<in>set (guard_names g). Some x \<in> set changed)"
    by (rule guard_holds_names)
  have 8: "guard_holds (Includes x) changed = guard_holds (SomeIncluded [x]) changed"
    by simp
  show ?thesis
    unfolding 2 using 1 3 4 5 6 7 8 by blast
qed

text \<open>
  The template \<^verbatim>\<open>{a + b}{a}{c}\<close> with \<open>a\<close> and \<open>b\<close> in \<^verbatim>\<open>willChange\<close>: two
  lines, the first guarded by both names, the second by \<open>a\<close>, and none for \<open>c\<close>.
\<close>

theorem update_guards_witness:
  "generate plain_host sums_ast (no_analysis\<lparr>willChange := [Some ''a'', Some ''b'']\<rparr>) =
     Inr \<lparr>declared = [Some ''txt_1'', Some ''txt_2'', Some ''txt_3''], script_text = [],
          seed = [Some ''a'', Some ''b''], blocks = [],
          lifecycle_create =
            [CreateExpressionText ''txt_1'' ''a + b'', AppendExpression ''target'' ''txt_1'',
             CreateExpressionText ''txt_2'' ''a'', AppendExpression ''target'' ''txt_2'',
             CreateExpressionText ''txt_3'' ''c'', AppendExpression ''target'' ''txt_3''],
          lifecycle_update =
            [Patch (SomeIncluded [''a'', ''b'']) ''txt_1'' ''a + b'',
             Patch (Includes ''a'') ''txt_2'' ''a''],
          lifecycle_destroy = []\<rparr>
   \<and> patch_guards [Some ''a'', Some ''b''] (concat (map expressions_of (html sums_ast))) =
       [SomeIncluded [''a'', ''b''], Includes ''a'']
   \<and> intersects [Some ''a'', Some ''b''] (BinaryExpression ''+'' (Identifier ''a'') (Identifier ''b''))
   \<and> binary_shape (BinaryExpression ''+'' (Identifier ''a'') (Identifier ''b''))
   \<and> identifiers (BinaryExpression ''+'' (Identifier ''a'') (Identifier ''b'')) = [''a'', ''b'']
   \<and> 1 < length [''a'', ''b'']
   \<and> render (Patch (SomeIncluded [''a'', ''b'']) ''txt_1'' ''a + b'') =
       ''if (['' @ [CHR 0x22] @ ''a'' @ [CHR 0x22] @ '','' @ [CHR 0x22] @ ''b'' @ [CHR 0x22] @
       ''].some(name => changed.includes(name))) {'' @ [CHR 0x0A] @
       ''            txt_1.data = a + b;'' @ [CHR 0x0A] @ ''          }''
   \<and> render (Patch (Includes ''a'') ''txt_2'' ''a'') =
       ''if (changed.includes('' @ [CHR 0x27] @ ''a'' @ [CHR 0x27] @ '')) {'' @ [CHR 0x0A] @
       ''            txt_2.data = a;'' @ [CHR 0x0A] @ ''          }''
   \<and> guard_holds (SomeIncluded [''a'', ''b'']) [Some ''b'']
   \<and> \<not> guard_holds (Includes ''a'') [Some ''b'']"
proof -
  have g: "generate plain_host sums_ast (no_analysis\<lparr>willChange := [Some ''a'', Some ''b'']\<rparr>) =
     Inr \<lparr>declared = [Some ''txt_1'', Some ''txt_2'', Some ''txt_3''], script_text = [],
          seed = [Some ''a'', Some ''b''], blocks = [],
          lifecycle_create =
            [CreateExpressionText ''txt_1'' ''a + b'', AppendExpression ''target'' ''txt_1'',
             CreateExpressionText ''txt_2'' ''a'', AppendExpression ''target'' ''txt_2'',
             CreateExpressionText ''txt_3'' ''c'', AppendExpression ''target'' ''txt_3''],
          lifecycle_update =
            [Patch (SomeIncluded [''a'', ''b'']) ''txt_1'' ''a + b'',
             Patch (Includes ''a'') ''txt_2'' ''a''],
          lifecycle_destroy = []\<rparr>"
    by (simp add: run_generate sums_ast_def no_analysis_def plain_host_def sample_host_def changes_of_def
        condition_of_def set_add_def spliced_def)
  have i: "intersects [Some ''a'', Some ''b''] (BinaryExpression ''+'' (Identifier ''a'') (Identifier ''b''))"
    "binary_shape (BinaryExpression ''+'' (Identifier ''a'') (Identifier ''b''))"
    "1 < length [''a'', ''b'']"
    by (simp_all add: intersects_def)
  have r: "json_array (map Some [''a'', ''b'']) =
      ''['' @ [CHR 0x22] @ ''a'' @ [CHR 0x22] @ '','' @ [CHR 0x22] @ ''b'' @ [CHR 0x22] @ '']''"
    by (simp add: json_array_def json_element_def json_string_def json_char_def dq_def backslash_def)
  note u = update_guards [OF g, where wc = "[Some ''a'', Some ''b'']"
      and e = "BinaryExpression ''+'' (Identifier ''a'') (Identifier ''b'')"
      and xs = "[''a'', ''b'']" and x = "''a''" and v = "''txt_1''" and ex = "''a + b''"
      and g = "SomeIncluded [''a'', ''b'']" and changed = "[Some ''b'']"]
  note u2 = update_guards [OF g, where x = "''a''" and v = "''txt_2''" and ex = "''a''"
      and g = "Includes ''a''" and changed = "[Some ''b'']"]
  have 1: "patch_guards [Some ''a'', Some ''b''] (concat (map expressions_of (html sums_ast))) =
       [SomeIncluded [''a'', ''b''], Includes ''a'']"
    using u [THEN conjunct1] by (simp add: no_analysis_def List.map_filter_def)
  have 2: "identifiers (BinaryExpression ''+'' (Identifier ''a'') (Identifier ''b'')) = [''a'', ''b'']"
    using u [THEN conjunct2, THEN conjunct2, THEN conjunct2, THEN conjunct1] i by simp
  have 3: "render (Patch (SomeIncluded [''a'', ''b'']) ''txt_1'' ''a + b'') =
       ''if (['' @ [CHR 0x22] @ ''a'' @ [CHR 0x22] @ '','' @ [CHR 0x22] @ ''b'' @ [CHR 0x22] @
       ''].some(name => changed.includes(name))) {'' @ [CHR 0x0A] @
       ''            txt_1.data = a + b;'' @ [CHR 0x0A] @ ''          }''"
    using u [THEN conjunct2, THEN conjunct2, THEN conjunct2, THEN conjunct2, THEN conjunct2,
        THEN conjunct2, THEN conjunct2, THEN conjunct1] r by simp
  have 4: "render (Patch (Includes ''a'') ''txt_2'' ''a'') =
       ''if (changed.includes('' @ [CHR 0x27] @ ''a'' @ [CHR 0x27] @ '')) {'' @ [CHR 0x0A] @
       ''            txt_2.data = a;'' @ [CHR 0x0A] @ ''          }''"
    using u2 [THEN conjunct2, THEN conjunct2, THEN conjunct2, THEN conjunct2, THEN conjunct2,
        THEN conjunct2, THEN conjunct1] by simp
  have 5: "guard_holds (SomeIncluded [''a'', ''b'']) [Some ''b'']"
    "\<not> guard_holds (Includes ''a'') [Some ''b'']"
    using u [THEN conjunct2, THEN conjunct2, THEN conjunct2, THEN conjunct2, THEN conjunct2,
        THEN conjunct2, THEN conjunct2, THEN conjunct2, THEN conjunct1]
      u2 [THEN conjunct2, THEN conjunct2, THEN conjunct2, THEN conjunct2, THEN conjunct2,
        THEN conjunct2, THEN conjunct2, THEN conjunct2, THEN conjunct1]
    by simp_all
  show ?thesis using g 1 i 2 3 4 5 by simp
qed

text \<open>
  The claim as stated is about the identifiers of the expression. For the
  interpolation \<^verbatim>\<open>{a && b}\<close> with \<open>a\<close> and \<open>b\<close> in \<^verbatim>\<open>willChange\<close> the
  identifiers of the expression are in \<^verbatim>\<open>willChange\<close>, and \<^verbatim>\<open>update\<close> has no line:
  \<^verbatim>\<open>extract_names\<close> does not enter a \<^verbatim>\<open>LogicalExpression\<close>.
\<close>

theorem logical_guard_counterexample:
  "generate plain_host logical_ast (no_analysis\<lparr>willChange := [Some ''a'', Some ''b'']\<rparr>) =
     Inr \<lparr>declared = [Some ''txt_1''], script_text = [],
          seed = [Some ''a'', Some ''b''], blocks = [],
          lifecycle_create =
            [CreateExpressionText ''txt_1'' ''a && b'', AppendExpression ''target'' ''txt_1''],
          lifecycle_update = [],
          lifecycle_destroy = []\<rparr>
   \<and> identifiers (LogicalExpression ''&&'' (Identifier ''a'') (Identifier ''b'')) = [''a'', ''b'']
   \<and> willChange (no_analysis\<lparr>willChange := [Some ''a'', Some ''b'']\<rparr>) = [Some ''a'', Some ''b'']"
  by (simp add: run_generate logical_ast_def no_analysis_def plain_host_def sample_host_def
      identifiers_unfold)

section \<open>The names used by the template\<close>

lemma set_fold_set_add: "set (fold (\<lambda>name. set_add (g name)) names acc) = set acc \<union> g ` set names"
  by (induction names arbitrary: acc) auto

lemma fold_used:
  "(\<And>x acc. x \<in> set xs \<Longrightarrow> set (g x acc) = set acc \<union> U x)
   \<Longrightarrow> set (fold g xs acc) = set acc \<union> (\<Union>x\<in>set xs. U x)"
  by (induction xs arbitrary: acc) auto

lemma used_names_Element:
  "used_names (Element name as cs) = (\<Union>x\<in>set cs. used_names x) \<union> (\<Union>x\<in>set as. used_names x)"
  by (auto simp: used_names_def expressions_of.simps [of "Element name as cs"]
      attribute_values_of.simps [of "Element name as cs"])

lemma traverse_use_set: "set (traverse_use f used) = set used \<union> used_names f"
proof (induction f arbitrary: used)
  case (Element name as cs)
  have c: "set (fold traverse_use cs used) = set used \<union> (\<Union>x\<in>set cs. used_names x)"
    by (rule fold_used) (simp add: Element.IH(2))
  have a: "set (fold traverse_use as (fold traverse_use cs used)) =
      set (fold traverse_use cs used) \<union> (\<Union>x\<in>set as. used_names x)"
    by (rule fold_used) (simp add: Element.IH(1))
  have t: "traverse_use (Element name as cs) used = fold traverse_use as (fold traverse_use cs used)"
    by (subst traverse_use.simps) simp
  show ?case
    unfolding t a c used_names_Element by auto
next
  case (Attribute name v)
  show ?case
    by (simp add: traverse_use.simps used_names_def expressions_of.simps attribute_values_of.simps)
next
  case (Expression e)
  show ?case
    by (simp add: traverse_use.simps used_names_def expressions_of.simps attribute_values_of.simps
        set_fold_set_add)
next
  case (Text v)
  show ?case
    by (simp add: traverse_use.simps used_names_def expressions_of.simps attribute_values_of.simps)
qed

text \<open>
  Claim C4, as amended. After the analysis \<^verbatim>\<open>willUseInTemplate\<close> holds exactly the
  names that \<^verbatim>\<open>extract_names\<close> gives for the interpolations of the template, at any
  depth of it, and the \<^verbatim>\<open>name\<close> of the attribute values. For an expression built
  from identifiers, literals and binary operators only, these are all the identifiers
  that occur in it, so all of them are in the set.
\<close>

theorem template_names_collected:
  assumes "analyse h a = Inr (A, a')"
  shows "set (willUseInTemplate A) = (\<Union>f\<in>set (html a). used_names f)
    \<and> (binary_shape e \<longrightarrow> extract_names e = identifiers e)
    \<and> (Expression e \<in> set (html a) \<and> binary_shape e \<longrightarrow>
         Some ` set (identifiers e) \<subseteq> set (willUseInTemplate A))"
proof -
  have u: "set (fold traverse_use (html a) []) = set [] \<union> (\<Union>f\<in>set (html a). used_names f)"
    by (rule fold_used) (rule traverse_use_set)
  obtain body where b: "script a = Some (Program body)"
    using assms by (simp add: analyse_def split: option.splits jsnode.splits)
  have w: "willUseInTemplate A = fold traverse_use (html a) []"
    using assms b by (auto simp: analyse_def Let_def split: sum.splits prod.splits)
  have 1: "set (willUseInTemplate A) = (\<Union>f\<in>set (html a). used_names f)"
    using u w by simp
  have 2: "binary_shape e \<longrightarrow> extract_names e = identifiers e"
    by (simp add: binary_shape_identifiers)
  have 3: "Expression e \<in> set (html a) \<and> binary_shape e \<longrightarrow>
         Some ` set (identifiers e) \<subseteq> set (willUseInTemplate A)"
  proof
    assume h: "Expression e \<in> set (html a) \<and> binary_shape e"
    then have "Some ` set (extract_names e) \<subseteq> used_names (Expression e)"
      by (simp add: used_names_def expressions_of.simps)
    then show "Some ` set (identifiers e) \<subseteq> set (willUseInTemplate A)"
      using h 1 binary_shape_identifiers [of e] by auto
  qed
  show ?thesis using 1 2 3 by blast
qed

theorem template_names_collected_witness:
  "analyse (sample_host (Program []) (Scope [] None) []) sums_ast =
      Inr (no_analysis\<lparr>willUseInTemplate := [Some ''a'', Some ''b'', Some ''c'']\<rparr>, sums_ast)
   \<and> (\<Union>f\<in>set (html sums_ast). used_names f) = {Some ''a'', Some ''b'', Some ''c''}
   \<and> identifiers (BinaryExpression ''+'' (Identifier ''a'') (Identifier ''b'')) = [''a'', ''b'']"
proof -
  have g: "analyse (sample_host (Program []) (Scope [] None) []) sums_ast =
      Inr (no_analysis\<lparr>willUseInTemplate := [Some ''a'', Some ''b'', Some ''c'']\<rparr>, sums_ast)"
    by (simp add: run_analyse sums_ast_def no_analysis_def)
  have b: "binary_shape (BinaryExpression ''+'' (Identifier ''a'') (Identifier ''b''))" by simp
  show ?thesis
    using g b template_names_collected [OF g, of "BinaryExpression ''+'' (Identifier ''a'') (Identifier ''b'')"]
    by (simp add: no_analysis_def identifiers_unfold)
qed

text \<open>
  The claim as stated covers every expression shape. For the interpolation
  \<^verbatim>\<open>{a && b}\<close> the expression is a \<^verbatim>\<open>LogicalExpression\<close>, which
  \<^verbatim>\<open>extract_names\<close> does not enter: the set stays empty although the expression
  refers to \<open>a\<close> and \<open>b\<close>.
\<close>

theorem logical_expression_counterexample:
  "analyse (sample_host (Program []) (Scope [] None) []) logical_ast = Inr (no_analysis, logical_ast)
   \<and> willUseInTemplate no_analysis = []
   \<and> identifiers (LogicalExpression ''&&'' (Identifier ''a'') (Identifier ''b'')) = [''a'', ''b'']"
  by (simp add: run_analyse logical_ast_def no_analysis_def identifiers_unfold)

section \<open>The rewrite of mutations\<close>

lemma find_owner_declares: "find_owner x cur = Some sc \<Longrightarrow> x \<in> set (declarations sc)"
  by (induction x cur rule: find_owner.induct) (auto split: if_splits option.splits)

text \<open>
  The walk leaves the current scope as it found it, so the children of a node are all
  rewritten in the scope that the node has made current.
\<close>

lemma rewrite_scope:
  "snd (rewrite h root used n cur) = cur"
  "snd (rewrite_list h root used ns cur) = cur"
proof (induction h root used n cur and h root used ns cur rule: rewrite_rewrite_list.induct)
  case (13 h root used t sc ks cur)
  then show ?case
    by (simp add: leave_enter case_prod_beta)
qed (simp_all add: Let_def case_prod_beta, (metis prod.collapse)+)

lemma rewrite_list_map:
  "fst (rewrite_list h root used ks cur) = map (\<lambda>k. fst (rewrite h root used k cur)) ks"
  by (induction ks) (simp_all add: case_prod_beta rewrite_scope)

lemma enter_plain: "node_scope n = None \<Longrightarrow> enter_scope n cur = cur"
  by (simp add: enter_scope_def)

lemma notify_plain: "target n = None \<Longrightarrow> notify_names h root used cur n = []"
  by (simp add: notify_names_def target_names_def)

lemma rewrite_children:
  "notify_names h root used cur n = [] \<Longrightarrow>
     children (fst (rewrite h root used n cur)) =
       map (\<lambda>k. fst (rewrite h root used k (enter_scope n cur))) (children n)"
  by (cases n) (simp_all add: case_prod_beta rewrite_scope rewrite_list_map enter_scope_def Let_def)

lemma rewrite_reaches:
  "visited h root used cur n p \<Longrightarrow> subterm_at n p = Some m \<Longrightarrow>
     subterm_at (fst (rewrite h root used n cur)) p =
       Some (fst (rewrite h root used m (scope_at cur n p)))"
proof (induction p arbitrary: n cur)
  case Nil
  then show ?case by simp
next
  case (Cons i p)
  from Cons.prems have q: "notify_names h root used cur n = []"
    and v: "visited h root used (enter_scope n cur) (children n ! i) p"
    and i: "i < length (children n)" and s: "subterm_at (children n ! i) p = Some m"
    by (auto split: if_splits)
  show ?case
    using Cons.IH [OF v s] i by (simp add: rewrite_children [OF q])
qed

lemma rewrite_unfold:
  "fst (rewrite h root used (Identifier x) cur) = Identifier x"
  "fst (rewrite h root used (Literal v) cur) = Literal v"
  "fst (rewrite h root used (BinaryExpression op l r) cur) =
     BinaryExpression op (fst (rewrite h root used l cur)) (fst (rewrite h root used r cur))"
  "fst (rewrite h root used (LogicalExpression op l r) cur) =
     LogicalExpression op (fst (rewrite h root used l cur)) (fst (rewrite h root used r cur))"
  "notify_names h root used cur (UpdateExpression op prefix a) = [] \<Longrightarrow>
     fst (rewrite h root used (UpdateExpression op prefix a) cur) =
       UpdateExpression op prefix (fst (rewrite h root used a cur))"
  "notify_names h root used cur (AssignmentExpression op l r) = [] \<Longrightarrow>
     fst (rewrite h root used (AssignmentExpression op l r) cur) =
       AssignmentExpression op (fst (rewrite h root used l cur)) (fst (rewrite h root used r cur))"
  "fst (rewrite h root used (SequenceExpression es) cur) =
     SequenceExpression (map (\<lambda>k. fst (rewrite h root used k cur)) es)"
  "fst (rewrite h root used (CallExpression f as) cur) =
     CallExpression (fst (rewrite h root used f cur)) (map (\<lambda>k. fst (rewrite h root used k cur)) as)"
  "fst (rewrite h root used (ArrayExpression es) cur) =
     ArrayExpression (map (\<lambda>k. fst (rewrite h root used k cur)) es)"
  "fst (rewrite h root used (ExpressionStatement e) cur) =
     ExpressionStatement (fst (rewrite h root used e cur))"
  "fst (rewrite h root used (LabeledStatement lb b) cur) =
     LabeledStatement lb (fst (rewrite h root used b cur))"
  "fst (rewrite h root used (Program bd) cur) =
     Program (map (\<lambda>k. fst (rewrite h root used k cur)) bd)"
  "fst (rewrite h root used (Other t sc ks) cur) =
     Other t sc (map (\<lambda>k. fst (rewrite h root used k (enter_scope (Other t sc ks) cur))) ks)"
  by (simp_all add: case_prod_beta rewrite_scope rewrite_list_map Let_def)

lemma quiet_unfold:
  "quiet h root used cur (Identifier x)"
  "quiet h root used cur (Literal v)"
  "quiet h root used cur (BinaryExpression op l r) = (quiet h root used cur l \<and> quiet h root used cur r)"
  "quiet h root used cur (LogicalExpression op l r) = (quiet h root used cur l \<and> quiet h root used cur r)"
  "quiet h root used cur (UpdateExpression op prefix a) =
     (notify_names h root used cur (UpdateExpression op prefix a) = [] \<and> quiet h root used cur a)"
  "quiet h root used cur (AssignmentExpression op l r) =
     (notify_names h root used cur (AssignmentExpression op l r) = [] \<and>
      quiet h root used cur l \<and> quiet h root used cur r)"
  "quiet h root used cur (SequenceExpression es) = list_all (quiet h root used cur) es"
  "quiet h root used cur (CallExpression f as) =
     (quiet h root used cur f \<and> list_all (quiet h root used cur) as)"
  "quiet h root used cur (ArrayExpression es) = list_all (quiet h root used cur) es"
  "quiet h root used cur (ExpressionStatement e) = quiet h root used cur e"
  "quiet h root used cur (LabeledStatement lb b) = quiet h root used cur b"
  "quiet h root used cur (Program bd) = list_all (quiet h root used cur) bd"
  "quiet h root used cur (Other t sc ks) =
     list_all (quiet h root used (enter_scope (Other t sc ks) cur)) ks"
  by (subst quiet.simps, simp add: notify_plain enter_scope_def)+

lemma rewrite_quiet: "quiet h root used cur n \<Longrightarrow> fst (rewrite h root used n cur) = n"
proof (induction n arbitrary: cur)
  case (UpdateExpression op prefix a)
  then show ?case by (simp add: quiet_unfold rewrite_unfold del: rewrite.simps)
next
  case (AssignmentExpression op l r)
  then show ?case by (simp add: quiet_unfold rewrite_unfold del: rewrite.simps)
qed (simp_all add: quiet_unfold rewrite_unfold list_all_iff map_idI del: rewrite.simps)

text \<open>
  Claim C3, as amended. Let \<open>m\<close> be an increment, decrement or assignment anywhere in
  the script, also inside functions, at a path \<open>p\<close> to which the rewrite walk comes,
  and let \<open>cur\<close> be the scope current there. The names notified for \<open>m\<close> are
  exactly its target names that \<open>cur\<close> resolves to the root scope and that the template
  uses; they are all declared in the root scope, so a free (global) name is never among
  them. If there is such a name, the rewritten script has at \<open>p\<close> the sequence of
  \<open>m\<close> itself, as it was, and the call \<^verbatim>\<open>update([...])\<close> with exactly those names.
  If there is none, \<open>m\<close> stays a mutation with the same operator and the walk goes on
  into its operands, where a nested mutation can still be replaced. A script in which
  no mutation has a name to notify is left as it is. The text of the rewritten script
  is the script of the module.
\<close>

theorem mutation_rewritten:
  assumes "generate h a A = Inr mo" and "script a = Some s"
    and "visited h (rootScope A) (willUseInTemplate A) (rootScope A) s p"
    and "subterm_at s p = Some m" and "target m \<noteq> None"
  shows
   "(let root = rootScope A; used = willUseInTemplate A; cur = scope_at root s p;
         names = notify_names h root used cur m;
         s' = fst (rewrite h root used s root)
     in script_text mo = escodegen_generate h s'
      \<and> set names = {x \<in> set (target_names h m). find_owner x cur = Some root \<and> Some x \<in> set used}
      \<and> set names \<subseteq> set (declarations root)
      \<and> (names \<noteq> [] \<longrightarrow>
            subterm_at s' p =
              Some (SequenceExpression
                [m, CallExpression (Identifier ''update'')
                      [ArrayExpression (map (\<lambda>x. Literal (json_string x)) names)]]))
      \<and> (names = [] \<longrightarrow>
            subterm_at s' p =
              Some (case m of
                  UpdateExpression op prefix x \<Rightarrow>
                    UpdateExpression op prefix (fst (rewrite h root used x cur))
                | AssignmentExpression op l r \<Rightarrow>
                    AssignmentExpression op (fst (rewrite h root used l cur))
                      (fst (rewrite h root used r cur))
                | _ \<Rightarrow> m))
      \<and> (quiet h root used root s \<longrightarrow> s' = s))"
proof -
  let ?root = "rootScope A" and ?used = "willUseInTemplate A"
  let ?cur = "scope_at ?root s p"
  let ?names = "notify_names h ?root ?used ?cur m"
  let ?s' = "fst (rewrite h ?root ?used s ?root)"
  have 1: "script_text mo = escodegen_generate h ?s'"
    using assms(1,2) by (auto simp: generate_def Let_def)
  have 2: "set ?names = {x \<in> set (target_names h m). find_owner x ?cur = Some ?root \<and> Some x \<in> set ?used}"
    by (auto simp: notify_names_def)
  have 3: "set ?names \<subseteq> set (declarations ?root)"
    using find_owner_declares by (auto simp: notify_names_def)
  have r: "subterm_at ?s' p = Some (fst (rewrite h ?root ?used m ?cur))"
    by (rule rewrite_reaches [OF assms(3,4)])
  have 4: "?names \<noteq> [] \<longrightarrow>
            subterm_at ?s' p =
              Some (SequenceExpression
                [m, CallExpression (Identifier ''update'')
                      [ArrayExpression (map (\<lambda>x. Literal (json_string x)) ?names)]])"
    using assms(5) r by (cases m) (simp_all add: Let_def update_call_def)
  have 5: "?names = [] \<longrightarrow>
            subterm_at ?s' p =
              Some (case m of
                  UpdateExpression op prefix x \<Rightarrow>
                    UpdateExpression op prefix (fst (rewrite h ?root ?used x ?cur))
                | AssignmentExpression op l r \<Rightarrow>
                    AssignmentExpression op (fst (rewrite h ?root ?used l ?cur))
                      (fst (rewrite h ?root ?used r ?cur))
                | _ \<Rightarrow> m)"
    using assms(5) r by (cases m) (simp_all add: rewrite_unfold del: rewrite.simps)
  have 6: "quiet h ?root ?used ?root s \<longrightarrow> ?s' = s"
    by (simp add: rewrite_quiet)
  show ?thesis
    unfolding Let_def using 1 2 3 4 5 6 by blast
qed


text \<open>
  The counter component: the increment inside the arrow function, at the path
  \<open>[1, 0, 1, 0]\<close>, is reached in the scope of the function and replaced. The script
  \<^verbatim>\<open>total = counter++;\<close>: the assignment has no name to notify and stays, and the
  increment in its right side is replaced. The counter component with a template that
  uses only \<open>total\<close>: the script is left as it is.
\<close>

theorem mutation_rewritten_witness:
  "generate counter_host counter_ast counter_analysis = Inr counter_module
   \<and> script counter_ast = Some counter_script
   \<and> visited counter_host counter_root [Some ''counter''] counter_root counter_script [1, 0, 1, 0]
   \<and> subterm_at counter_script [1, 0, 1, 0] = Some counter_increment
   \<and> target counter_increment \<noteq> None
   \<and> scope_at counter_root counter_script [1, 0, 1, 0] = Scope [] (Some counter_root)
   \<and> notify_names counter_host counter_root [Some ''counter''] (Scope [] (Some counter_root))
        counter_increment = [''counter'']
   \<and> subterm_at (fst (rewrite counter_host counter_root [Some ''counter''] counter_script counter_root))
        [1, 0, 1, 0] =
       Some (SequenceExpression
         [counter_increment,
          CallExpression (Identifier ''update'')
            [ArrayExpression [Literal (CHR 0x22 # ''counter'' @ [CHR 0x22])]]])
   \<and> visited counter_host counter_root [Some ''counter''] counter_root nested_script [0, 0]
   \<and> subterm_at nested_script [0, 0] =
        Some (AssignmentExpression ''='' (Identifier ''total'') counter_increment)
   \<and> notify_names counter_host counter_root [Some ''counter''] counter_root
        (AssignmentExpression ''='' (Identifier ''total'') counter_increment) = []
   \<and> subterm_at (fst (rewrite counter_host counter_root [Some ''counter''] nested_script counter_root))
        [0, 0] =
       Some (AssignmentExpression ''='' (Identifier ''total'')
         (SequenceExpression
           [counter_increment,
            CallExpression (Identifier ''update'')
              [ArrayExpression [Literal (CHR 0x22 # ''counter'' @ [CHR 0x22])]]]))
   \<and> quiet counter_host counter_root [Some ''total''] counter_root counter_script
   \<and> fst (rewrite counter_host counter_root [Some ''total''] counter_script counter_root) =
       counter_script"
proof -
  let ?h = counter_host
  have g: "generate ?h counter_ast counter_analysis = Inr counter_module"
    by (rule counter_generated(2))
  have sc: "script counter_ast = Some counter_script"
    by (simp add: counter_ast_def)
  have r: "rootScope counter_analysis = counter_root"
    "willUseInTemplate counter_analysis = [Some ''counter'']"
    by (simp_all add: counter_analysis_def)
  have v: "visited ?h counter_root [Some ''counter''] counter_root counter_script [1, 0, 1, 0]"
    by (simp add: counter_script_def notify_plain)
  have st: "subterm_at counter_script [1, 0, 1, 0] = Some counter_increment"
    by (simp add: counter_script_def)
  have t: "target counter_increment \<noteq> None"
    by (simp add: counter_increment_def)
  have sa: "scope_at counter_root counter_script [1, 0, 1, 0] = Scope [] (Some counter_root)"
    by (simp add: counter_script_def enter_scope_def)
  have n: "notify_names ?h counter_root [Some ''counter''] (Scope [] (Some counter_root))
        counter_increment = [''counter'']"
    by (simp add: notify_names_def target_names_def counter_increment_def counter_host_def
        sample_host_def counter_root_def)
  have 1: "subterm_at (fst (rewrite ?h counter_root [Some ''counter''] counter_script counter_root))
        [1, 0, 1, 0] =
       Some (SequenceExpression
         [counter_increment,
          CallExpression (Identifier ''update'')
            [ArrayExpression [Literal (CHR 0x22 # ''counter'' @ [CHR 0x22])]]])"
    using mutation_rewritten [OF g sc, of "[1, 0, 1, 0]" counter_increment] v st t sa n
    by (simp add: r Let_def json_string_def json_char_def dq_def backslash_def del: rewrite.simps)
  let ?a = "\<lparr>html = [], script = Some nested_script\<rparr>"
  have g2: "generate ?h ?a counter_analysis =
      Inr \<lparr>declared = [], script_text = [], seed = [Some ''counter''], blocks = [],
           lifecycle_create = [], lifecycle_update = [], lifecycle_destroy = []\<rparr>"
    by (simp add: generate_def Let_def empty_code_def js_sort_def counter_analysis_def
        counter_host_def sample_host_def nested_script_def case_prod_beta)
  have sc2: "script ?a = Some nested_script" by simp
  have v2: "visited ?h counter_root [Some ''counter''] counter_root nested_script [0, 0]"
    by (simp add: nested_script_def notify_plain)
  have st2: "subterm_at nested_script [0, 0] =
        Some (AssignmentExpression ''='' (Identifier ''total'') counter_increment)"
    by (simp add: nested_script_def)
  have sa2: "scope_at counter_root nested_script [0, 0] = counter_root"
    by (simp add: nested_script_def enter_scope_def)
  have n2: "notify_names ?h counter_root [Some ''counter''] counter_root
        (AssignmentExpression ''='' (Identifier ''total'') counter_increment) = []"
    by (simp add: notify_names_def target_names_def counter_host_def sample_host_def counter_root_def)
  have i: "fst (rewrite ?h counter_root [Some ''counter''] counter_increment counter_root) =
       SequenceExpression
           [counter_increment,
            CallExpression (Identifier ''update'')
              [ArrayExpression [Literal (CHR 0x22 # ''counter'' @ [CHR 0x22])]]]"
    by (simp add: counter_increment_def notify_names_def target_names_def counter_host_def
        sample_host_def counter_root_def update_call_def json_string_def json_char_def dq_def
        backslash_def Let_def)
  have 2: "subterm_at (fst (rewrite ?h counter_root [Some ''counter''] nested_script counter_root))
        [0, 0] =
       Some (AssignmentExpression ''='' (Identifier ''total'')
         (SequenceExpression
           [counter_increment,
            CallExpression (Identifier ''update'')
              [ArrayExpression [Literal (CHR 0x22 # ''counter'' @ [CHR 0x22])]]]))"
    using mutation_rewritten [OF g2 sc2, of "[0, 0]"
        "AssignmentExpression ''='' (Identifier ''total'') counter_increment"] v2 st2 sa2 n2 i
    by (simp add: r Let_def rewrite_unfold(1) del: rewrite.simps)
  let ?A = "counter_analysis\<lparr>willUseInTemplate := [Some ''total'']\<rparr>"
  have g3: "generate ?h counter_ast ?A = Inr counter_module"
    by (simp add: analyse_def generate_def sample_host_def Let_def
      traverse.simps enter_scope_def leave_scope_def target_names_def
      set_add_def empty_code_def js_sort_def notify_names_def
      counter_host_def counter_ast_def counter_script_def counter_analysis_def counter_module_def
      counter_root_def counter_increment_def changes_of_def condition_of_def spliced_def)
  have r3: "rootScope ?A = counter_root" "willUseInTemplate ?A = [Some ''total'']"
    by (simp_all add: counter_analysis_def)
  have n3: "notify_names ?h counter_root [Some ''total''] (Scope [] (Some counter_root))
        counter_increment = []"
    by (simp add: notify_names_def target_names_def counter_increment_def counter_host_def
        sample_host_def counter_root_def)
  have q: "quiet ?h counter_root [Some ''total''] counter_root counter_script"
    using n3 by (simp add: counter_script_def quiet_unfold enter_scope_def counter_increment_def)
  have 3: "fst (rewrite ?h counter_root [Some ''total''] counter_script counter_root) = counter_script"
    using mutation_rewritten [OF g3 sc, of "[1, 0, 1, 0]" counter_increment] v st t q
    by (simp add: r3 Let_def counter_script_def notify_plain del: rewrite.simps)
  show ?thesis
    using g sc v st t sa n 1 v2 st2 n2 2 q 3 by blast
qed

text \<open>
  The claim as stated includes targets that are free (global) identifiers. The script
  \<^verbatim>\<open>total = 1;\<close> with the template \<^verbatim>\<open>{total}\<close>: the analysis puts the global
  \<open>total\<close> into \<^verbatim>\<open>willChange\<close> and \<^verbatim>\<open>willUseInTemplate\<close>, and the rewrite
  leaves the script as it is.
\<close>

theorem global_target_counterexample:
  "analyse global_host global_ast =
     Inr (\<lparr>variables = [], willChange = [Some ''total''], willUseInTemplate = [Some ''total''],
           rootScope = Scope [] None, reactiveDeclarations = []\<rparr>, global_ast)
   \<and> fst (rewrite global_host (Scope [] None) [Some ''total''] global_script (Scope [] None)) =
       global_script"
  by (simp add: analyse_def sample_host_def Let_def walk_change.simps traverse_use.simps
      enter_scope_def leave_scope_def target_names_def change_names_def set_add_def
      global_host_def global_ast_def global_script_def notify_names_def)

section \<open>The order of the derived statements\<close>

lemma set_insert_sorted: "set (insert_sorted cmp x ys) = insert x (set ys)"
  by (induction ys) auto

lemma set_js_sort: "set (js_sort cmp xs) = set xs"
  by (induction xs) (simp_all add: js_sort_def set_insert_sorted)

lemma sorted_insert_sorted:
  assumes "consistent cmp zs" "x \<in> set zs" "set ys \<subseteq> set zs"
    "sorted_wrt (\<lambda>a b. cmp a b \<le> 0) ys"
  shows "sorted_wrt (\<lambda>a b. cmp a b \<le> 0) (insert_sorted cmp x ys)"
  using assms(3,4)
proof (induction ys)
  case Nil
  show ?case by simp
next
  case (Cons y ys)
  have y: "y \<in> set zs" and ys: "set ys \<subseteq> set zs" using Cons.prems(1) by auto
  have tr: "\<And>a b c. a \<in> set zs \<Longrightarrow> b \<in> set zs \<Longrightarrow> c \<in> set zs \<Longrightarrow>
      cmp a b \<le> 0 \<Longrightarrow> cmp b c \<le> 0 \<Longrightarrow> cmp a c \<le> 0"
    using assms(1) unfolding consistent_def by blast
  have an: "\<And>a b. a \<in> set zs \<Longrightarrow> b \<in> set zs \<Longrightarrow> (cmp a b < 0 \<longleftrightarrow> 0 < cmp b a)"
    using assms(1) unfolding consistent_def by blast
  show ?case
  proof (cases "cmp x y \<le> 0")
    case True
    have "\<forall>z\<in>set ys. cmp x z \<le> 0"
    proof
      fix z assume z: "z \<in> set ys"
      then have "cmp y z \<le> 0" using Cons.prems(2) by simp
      then show "cmp x z \<le> 0" using tr [OF assms(2) y _ True] z ys by blast
    qed
    then show ?thesis using True Cons.prems(2) by simp
  next
    case False
    then have "0 < cmp x y" by simp
    then have yx: "cmp y x \<le> 0" using an [OF y assms(2)] by simp
    have "sorted_wrt (\<lambda>a b. cmp a b \<le> 0) (insert_sorted cmp x ys)"
      using Cons.IH ys Cons.prems(2) by simp
    then show ?thesis
      using False yx Cons.prems(2) by (simp add: set_insert_sorted)
  qed
qed

lemma sorted_js_sort_aux:
  "consistent cmp zs \<Longrightarrow> set xs \<subseteq> set zs \<Longrightarrow> sorted_wrt (\<lambda>a b. cmp a b \<le> 0) (js_sort cmp xs)"
proof (induction xs)
  case Nil
  show ?case by (simp add: js_sort_def)
next
  case (Cons x xs)
  have "sorted_wrt (\<lambda>a b. cmp a b \<le> 0) (insert_sorted cmp x (js_sort cmp xs))"
    by (rule sorted_insert_sorted [where zs = zs]) (use Cons in \<open>simp_all add: set_js_sort\<close>)
  then show ?case by (simp add: js_sort_def)
qed

lemma sorted_js_sort:
  "consistent cmp xs \<Longrightarrow> sorted_wrt (\<lambda>a b. cmp a b \<le> 0) (js_sort cmp xs)"
  by (rule sorted_js_sort_aux [where zs = xs]) simp_all

lemma sorted_precedes:
  assumes "sorted_wrt le zs" "x \<in> set zs" "y \<in> set zs" "\<not> le y x" "x \<noteq> y"
  shows "precedes x y zs"
proof -
  from assms(3) obtain as bs where z: "zs = as @ y # bs" by (meson split_list)
  have "x \<notin> set bs" using assms(1,4) z by (auto simp: sorted_wrt_append)
  then have "x \<in> set as" using assms(2,5) z by auto
  then obtain us vs where "as = us @ x # vs" by (meson split_list)
  then show ?thesis using z by (auto simp: precedes_def)
qed

lemma sorted_not_precedes:
  assumes "sorted_wrt le zs" "\<not> le y x"
  shows "\<not> precedes y x zs"
  using assms by (auto simp: precedes_def sorted_wrt_append)

lemma precedes_map: "precedes x y zs \<Longrightarrow> precedes (f x) (f y) (map f zs)"
  unfolding precedes_def by fastforce

lemma two_statements_consistent:
  "\<not> depends_on X X \<Longrightarrow> \<not> depends_on Y Y \<Longrightarrow> \<not> (depends_on X Y \<and> depends_on Y X)
   \<Longrightarrow> consistent comparator [X, Y]"
  by (auto simp: consistent_def comparator_def split: if_splits)

text \<open>
  Claim C7, as amended. Let the comparator be a consistent ordering of the derived
  statements. If the assignee of \<open>X\<close> is among the dependencies of \<open>Y\<close>, or neither
  depends on the other and \<open>X\<close> comes first in the source, then the block of \<open>X\<close>
  stands before the block of \<open>Y\<close> in the emitted routine, and \<open>Y\<close> nowhere before
  \<open>X\<close>, whatever the order of the two in the source. The comparator is consistent on
  any two statements that depend neither on themselves nor on each other both ways.
\<close>

theorem derived_order:
  assumes "generate h a A = Inr m"
    and "consistent comparator (reactiveDeclarations A)"
    and "X \<in> set (reactiveDeclarations A)" and "Y \<in> set (reactiveDeclarations A)"
    and "depends_on Y X \<or> (\<not> depends_on X Y \<and> index X < index Y)"
  shows "precedes (block_of h X) (block_of h Y) (blocks m)
    \<and> \<not> precedes Y X (js_sort comparator (reactiveDeclarations A))
    \<and> (\<not> depends_on U U \<and> \<not> depends_on V V \<and> \<not> (depends_on U V \<and> depends_on V U)
         \<longrightarrow> consistent comparator [U, V])"
proof -
  let ?rds = "reactiveDeclarations A"
  have lt: "comparator X Y < 0"
    using assms(5) by (auto simp: comparator_def)
  then have gt: "0 < comparator Y X"
    using assms(2,3,4) unfolding consistent_def by blast
  then have nle: "\<not> comparator Y X \<le> 0" by simp
  have ne: "X \<noteq> Y" using lt gt by auto
  have s: "sorted_wrt (\<lambda>a b. comparator a b \<le> 0) (js_sort comparator ?rds)"
    using assms(2) by (rule sorted_js_sort)
  have p: "precedes X Y (js_sort comparator ?rds)"
    by (rule sorted_precedes [OF s _ _ nle ne]) (simp_all add: set_js_sort assms(3,4))
  have b: "blocks m = map (block_of h) (js_sort comparator ?rds)"
    using assms(1) by (auto simp: generate_def Let_def split: option.splits)
  show ?thesis
    using precedes_map [OF p, of "block_of h"] sorted_not_precedes [OF s nle] b
      two_statements_consistent [of U V] by simp
qed

theorem derived_order_witness:
  "generate (sample_host (Program []) (Scope [] None) []) empty_ast
      (no_analysis\<lparr>reactiveDeclarations := [derived 0 ''c'' ''b'', derived 1 ''b'' ''a'']\<rparr>) =
     Inr \<lparr>declared = [Some ''b'', Some ''c''], script_text = [], seed = [],
          blocks = [block_of (sample_host (Program []) (Scope [] None) []) (derived 1 ''b'' ''a''),
                    block_of (sample_host (Program []) (Scope [] None) []) (derived 0 ''c'' ''b'')],
          lifecycle_create = [], lifecycle_update = [], lifecycle_destroy = []\<rparr>
   \<and> consistent comparator [derived 0 ''c'' ''b'', derived 1 ''b'' ''a'']
   \<and> depends_on (derived 0 ''c'' ''b'') (derived 1 ''b'' ''a'')
   \<and> precedes (block_of (sample_host (Program []) (Scope [] None) []) (derived 1 ''b'' ''a''))
        (block_of (sample_host (Program []) (Scope [] None) []) (derived 0 ''c'' ''b''))
        [block_of (sample_host (Program []) (Scope [] None) []) (derived 1 ''b'' ''a''),
         block_of (sample_host (Program []) (Scope [] None) []) (derived 0 ''c'' ''b'')]"
proof -
  let ?h = "sample_host (Program []) (Scope [] None) []"
  let ?A = "no_analysis\<lparr>reactiveDeclarations := [derived 0 ''c'' ''b'', derived 1 ''b'' ''a'']\<rparr>"
  have g: "generate ?h empty_ast ?A =
     Inr \<lparr>declared = [Some ''b'', Some ''c''], script_text = [], seed = [],
          blocks = [block_of ?h (derived 1 ''b'' ''a''), block_of ?h (derived 0 ''c'' ''b'')],
          lifecycle_create = [], lifecycle_update = [], lifecycle_destroy = []\<rparr>"
    by (simp add: generate_def Let_def empty_code_def js_sort_def empty_ast_def no_analysis_def
        sample_host_def comparator_def depends_on_def derived_def)
  have c: "consistent comparator (reactiveDeclarations ?A)"
    by (simp add: consistent_def no_analysis_def comparator_def depends_on_def derived_def)
  have d: "depends_on (derived 0 ''c'' ''b'') (derived 1 ''b'' ''a'')"
    by (simp add: depends_on_def derived_def)
  have "precedes (block_of ?h (derived 1 ''b'' ''a'')) (block_of ?h (derived 0 ''c'' ''b''))
      (blocks \<lparr>declared = [Some ''b'', Some ''c''], script_text = [], seed = [],
          blocks = [block_of ?h (derived 1 ''b'' ''a''), block_of ?h (derived 0 ''c'' ''b'')],
          lifecycle_create = [], lifecycle_update = [], lifecycle_destroy = []\<rparr>)"
    using derived_order [OF g c, of "derived 1 ''b'' ''a''" "derived 0 ''c'' ''b''"] d
    by (simp add: no_analysis_def)
  then show ?thesis
    using g c d by (simp add: no_analysis_def)
qed

text \<open>
  The claim as stated holds for any two derived statements of any list. The statements
  \<^verbatim>\<open>$: r = q + 1; $: p = x + 1; $: q = p + 1;\<close> in this order: \<open>r\<close> depends on
  \<open>q\<close>, every neighbouring pair is in order for the comparator, the sort leaves the
  list as it is, and the block of \<open>r\<close> is emitted before the block of \<open>q\<close>.
\<close>

theorem chain_order_counterexample:
  "depends_on (derived 0 ''r'' ''q'') (derived 2 ''q'' ''p'')
   \<and> js_sort comparator [derived 0 ''r'' ''q'', derived 1 ''p'' ''x'', derived 2 ''q'' ''p''] =
       [derived 0 ''r'' ''q'', derived 1 ''p'' ''x'', derived 2 ''q'' ''p'']
   \<and> map_sum id (\<lambda>m. map block_assignees (blocks m))
        (generate (sample_host (Program []) (Scope [] None) []) empty_ast
           (no_analysis\<lparr>reactiveDeclarations :=
              [derived 0 ''r'' ''q'', derived 1 ''p'' ''x'', derived 2 ''q'' ''p'']\<rparr>)) =
       Inr [[Some ''r''], [Some ''p''], [Some ''q'']]"
  by (simp add: generate_def Let_def empty_code_def js_sort_def empty_ast_def no_analysis_def
      sample_host_def comparator_def depends_on_def derived_def block_of_def)

section \<open>The notification routine\<close>








section \<open>Notification and batching\<close>




section \<open>The initial notification\<close>














end
